theory Spec2Isabelle
  imports
    Main
    "HOL-Library.Word"
    "HOL-Library.Signed_Division"
    "HOL-Library.Sublist"
    "HOL-Library.Char_ord"
    "HOL-Library.List_Lexorder"
begin

section \<open>Go values used by torrent\_mutators.go\<close>

text \<open>
  \<open>int64\<close> is a 64-bit word read in two's complement. A \<open>time.Duration\<close> is an
  \<open>int64\<close> count of nanoseconds. Go strings are byte sequences compared byte by byte,
  which is the lexicographic order on \<open>char list\<close> given by \<open>Char_ord\<close> and
  \<open>List_Lexorder\<close>. \<open>float64\<close> and \<open>SeedRatioMode\<close> (declared in another file of
  the package) are only carried from the payload to the wire mapping, never inspected, so
  they are left uninterpreted.
\<close>

type_synonym int64 = "64 word"

typedecl float64

typedecl SeedRatioMode

text \<open>Go's \<open>/\<close> on \<open>int64\<close>: the quotient truncated towards zero, in 64 bits.\<close>

definition int64_quo :: "int64 \<Rightarrow> int64 \<Rightarrow> int64" where
  "int64_quo a b = word_of_int (sint a sdiv sint b)"

text \<open>\<open>time.Minute\<close>, in nanoseconds.\<close>

definition time_Minute :: int64 where
  "time_Minute = 60000000000"

text \<open>\<open>strings.Join(elems, sep)\<close>.\<close>

fun strings_Join :: "string list \<Rightarrow> string \<Rightarrow> string" where
  "strings_Join [] sep = []"
| "strings_Join [x] sep = x"
| "strings_Join (x # y # ys) sep = x @ sep @ strings_Join (y # ys) sep"

subsection \<open>Errors\<close>

text \<open>
  \<open>errors.New(text)\<close> builds an \<open>errorString\<close>; \<open>fmt.Errorf\<close> with a format that ends in
  \<open>%w\<close> builds a \<open>wrapError\<close> holding the formatted message and the wrapped error.
\<close>

datatype error = errorString string | wrapError string error

fun Error :: "error \<Rightarrow> string" where
  "Error (errorString s) = s"
| "Error (wrapError msg e) = msg"

fun Unwrap :: "error \<Rightarrow> error option" where
  "Unwrap (errorString s) = None"
| "Unwrap (wrapError msg e) = Some e"

definition errors_New :: "string \<Rightarrow> error" where
  "errors_New txt = errorString txt"

text \<open>\<open>fmt.Errorf(msg + "%w", err)\<close>, for a text \<open>msg\<close> without verbs.\<close>

definition fmt_Errorf_w :: "string \<Rightarrow> error \<Rightarrow> error" where
  "fmt_Errorf_w msg e = wrapError (msg @ Error e) e"

subsection \<open>Strings on a heap\<close>

text \<open>
  \<open>sort.Strings\<close> and \<open>compact\<close> write to the cells of the tracker list, and any other
  string storage of the payload may share these cells: \<open>Labels\<close> may be the same slice
  or overlap it, \<open>Group\<close> and \<open>Location\<close> may point at one of its elements. So all
  string storage is on one heap, a memory of string cells. A \<open>[]string\<close> header is \<open>nil\<close>
  or the address of its first cell with its length; its cells are consecutive. A non-nil
  \<open>*string\<close> is the address of a cell. Copying a payload copies headers and pointers, not
  cells. Storage of other element types (\<open>int64\<close>, \<open>bool\<close>, \<open>float64\<close>) cannot overlap
  string cells and is never written by this file; it is held by value (\<open>None\<close> is a nil
  pointer or slice, \<open>Some []\<close> an empty slice).
\<close>

type_synonym addr = nat

type_synonym heap = "addr \<Rightarrow> string"

datatype slice = nil | Slice addr nat

text \<open>The addresses of the cells of a slice.\<close>

fun cells :: "slice \<Rightarrow> addr set" where
  "cells nil = {}"
| "cells (Slice p n) = {p ..< p + n}"

text \<open>The elements \<open>s[0], ..., s[len(s)-1]\<close> of a slice.\<close>

fun elems :: "heap \<Rightarrow> slice \<Rightarrow> string list" where
  "elems h nil = []"
| "elems h (Slice p n) = map h [p ..< p + n]"

text \<open>Writing \<open>w\<close> to the cells of a slice, \<open>w[i]\<close> to the cell of \<open>s[i]\<close>.\<close>

fun store_elems :: "heap \<Rightarrow> slice \<Rightarrow> string list \<Rightarrow> heap" where
  "store_elems h nil w = h"
| "store_elems h (Slice p n) w =
     (\<lambda>a. if p \<le> a \<and> a < p + n \<and> a - p < length w then w ! (a - p) else h a)"

text \<open>The header of \<open>s[:k]\<close>.\<close>

fun reslice :: "slice \<Rightarrow> nat \<Rightarrow> slice" where
  "reslice nil k = nil"
| "reslice (Slice p n) k = Slice p k"

text \<open>
  A heap for examples: its cells 0, 1, 2, 3 hold \<open>http://b\<close>, \<open>http://a\<close>, \<open>http://a\<close>,
  \<open>http://b\<close>, and every other cell holds \<open>http://a\<close>.
\<close>

definition example_heap :: heap where
  "example_heap = (\<lambda>i. if i = 0 \<or> i = 3 then ''http://b'' else ''http://a'')"

section \<open>compact\<close>

text \<open>
  Indexing in Go is bounds checked: \<open>s[i]\<close> with \<open>i\<close> out of range panics. A panic is the
  value \<open>None\<close>.
\<close>

definition index_at :: "'a list \<Rightarrow> nat \<Rightarrow> 'a option" where
  "index_at s i = (if i < length s then Some (s ! i) else None)"

definition assign_at :: "'a list \<Rightarrow> nat \<Rightarrow> 'a \<Rightarrow> 'a list option" where
  "assign_at s i v = (if i < length s then Some (s[i := v]) else None)"

text \<open>\<open>return s[:k]\<close>: the same cells with length \<open>k\<close>.\<close>

definition reslice_to :: "'a list \<Rightarrow> nat \<Rightarrow> ('a list \<times> nat) option" where
  "reslice_to s k = (if k \<le> length s then Some (s, k) else None)"

text \<open>
  \<open>compact\<close> works on the cells \<open>s[0..len(s))\<close> of its argument, given here as a list, and
  returns these cells as it leaves them together with the length \<open>k\<close> of the slice
  \<open>s[:k]\<close> it returns.

  The inner loop (lines 31 to 37). \<open>s2 := s[k:]\<close> shares the cells of \<open>s\<close>: \<open>s2[i]\<close> is
  \<open>s[k0 + i]\<close>, where \<open>k0\<close> is the value of \<open>k\<close> when \<open>s2\<close> was taken, and \<open>len(s2)\<close> is
  \<open>len(s) - k0\<close>.
\<close>

function compact_inner :: "'a list \<Rightarrow> nat \<Rightarrow> nat \<Rightarrow> nat \<Rightarrow> ('a list \<times> nat) option" where
  "compact_inner s k0 k2 k =
     (if k2 < length s - k0 then
        (case index_at s (k0 + k2) of None \<Rightarrow> None | Some a \<Rightarrow>
         (case index_at s (k0 + (k2 - 1)) of None \<Rightarrow> None | Some b \<Rightarrow>
            if a \<noteq> b then
              (case assign_at s k a of None \<Rightarrow> None
               | Some s' \<Rightarrow> compact_inner s' k0 (k2 + 1) (k + 1))
            else compact_inner s k0 (k2 + 1) k))
      else reslice_to s k)"
  by pat_completeness auto
termination
  by (relation "measure (\<lambda>(s, k0, k2, k). length s - k0 - k2)")
     (auto simp: assign_at_def split: if_splits)

text \<open>The outer loop (lines 28 to 40).\<close>

function compact_outer :: "'a list \<Rightarrow> nat \<Rightarrow> ('a list \<times> nat) option" where
  "compact_outer s k =
     (if k < length s then
        (case index_at s k of None \<Rightarrow> None | Some a \<Rightarrow>
         (case index_at s (k - 1) of None \<Rightarrow> None | Some b \<Rightarrow>
            if a = b then compact_inner s k 1 k
            else compact_outer s (k + 1)))
      else Some (s, length s))"
  by pat_completeness auto
termination
  by (relation "measure (\<lambda>(s, k). length s - k)") auto

definition compact :: "'a list \<Rightarrow> ('a list \<times> nat) option" where
  "compact s = (if length s < 2 then Some (s, length s) else compact_outer s 1)"

declare compact_inner.simps [simp del] compact_outer.simps [simp del]

text \<open>
  The contract of the sequence normalizer in the words of its specification: scan from
  left to right and remove every element equal to its immediate predecessor.
  \<open>skip_repeats p xs\<close> scans \<open>xs\<close> with \<open>p\<close> the element just before it.
\<close>

fun skip_repeats :: "'a \<Rightarrow> 'a list \<Rightarrow> 'a list" where
  "skip_repeats p [] = []"
| "skip_repeats p (x # xs) = (if x = p then skip_repeats x xs else x # skip_repeats x xs)"

fun normalize_spec :: "'a list \<Rightarrow> 'a list" where
  "normalize_spec [] = []"
| "normalize_spec (x # xs) = x # skip_repeats x xs"

section \<open>TorrentSetPayload and its encoder\<close>

record TorrentSetPayload =
  BandwidthPriority :: "int64 option"
  DownloadLimit :: "int64 option"
  DownloadLimited :: "bool option"
  FilesWanted :: "int64 list option"
  FilesUnwanted :: "int64 list option"
  Group :: "addr option"
  HonorsSessionLimits :: "bool option"
  IDs :: "int64 list option"
  Labels :: slice
  Location :: "addr option"
  PeerLimit :: "int64 option"
  PriorityHigh :: "int64 list option"
  PriorityLow :: "int64 list option"
  PriorityNormal :: "int64 list option"
  QueuePosition :: "int64 option"
  SeedIdleLimit :: "int64 option"
  SeedIdleMode :: "int64 option"
  SeedRatioLimit :: "float64 option"
  SeedRatioMode :: "SeedRatioMode option"
  TrackerList :: slice
  UploadLimit :: "int64 option"
  UploadLimited :: "bool option"

text \<open>\<open>TorrentSetPayload{}\<close>, the zero value of the struct: every attribute unset.\<close>

definition zero_payload :: TorrentSetPayload where
  "zero_payload =
    \<lparr>BandwidthPriority = None, DownloadLimit = None, DownloadLimited = None,
     FilesWanted = None, FilesUnwanted = None, Group = None,
     HonorsSessionLimits = None, IDs = None, Labels = nil, Location = None,
     PeerLimit = None, PriorityHigh = None, PriorityLow = None, PriorityNormal = None,
     QueuePosition = None, SeedIdleLimit = None, SeedIdleMode = None,
     SeedRatioLimit = None, SeedRatioMode = None, TrackerList = nil,
     UploadLimit = None, UploadLimited = None\<rparr>"

text \<open>
  The values that \<open>MarshalJSON\<close> puts into \<open>cleanPayload\<close>. A non-nil pointer is
  represented by the value it points to and a slice by its elements, read from the heap
  as it is when \<open>MarshalJSON\<close> runs: this is what \<open>json.Marshal\<close> writes for them.
  \<open>JEmbedded\<close> is the pointer to the embedded \<open>baseTorrentSetPayload\<close>.
\<close>

datatype jvalue =
    JInt int64
  | JBool bool
  | JString string
  | JFloat float64
  | JMode SeedRatioMode
  | JInts "int64 list"
  | JStrings "string list"
  | JEmbedded

text \<open>
  What reflection shows of a struct field: its Go name, the \<open>json\<close> key of its tag, and
  its value, \<open>None\<close> when \<open>IsNil()\<close> holds and otherwise what \<open>Interface()\<close> returns.
\<close>

type_synonym struct_field = "string \<times> string \<times> jvalue option"

type_synonym wire_mapping = "string \<rightharpoonup> jvalue"

text \<open>The fields of \<open>baseTorrentSetPayload\<close>, in declaration order (lines 61 to 82).\<close>

definition baseTorrentSetPayload_fields :: "heap \<Rightarrow> TorrentSetPayload \<Rightarrow> struct_field list" where
  "baseTorrentSetPayload_fields h tsp =
    [(''BandwidthPriority'', ''bandwidthPriority'', map_option JInt (BandwidthPriority tsp)),
     (''DownloadLimit'', ''downloadLimit'', map_option JInt (DownloadLimit tsp)),
     (''DownloadLimited'', ''downloadLimited'', map_option JBool (DownloadLimited tsp)),
     (''FilesWanted'', ''files-wanted'', map_option JInts (FilesWanted tsp)),
     (''FilesUnwanted'', ''files-unwanted'', map_option JInts (FilesUnwanted tsp)),
     (''Group'', ''group'', map_option (\<lambda>p. JString (h p)) (Group tsp)),
     (''HonorsSessionLimits'', ''honorsSessionLimits'', map_option JBool (HonorsSessionLimits tsp)),
     (''IDs'', ''ids'', map_option JInts (IDs tsp)),
     (''Labels'', ''labels'',
        (if Labels tsp = nil then None else Some (JStrings (elems h (Labels tsp))))),
     (''Location'', ''location'', map_option (\<lambda>p. JString (h p)) (Location tsp)),
     (''PeerLimit'', ''peer-limit'', map_option JInt (PeerLimit tsp)),
     (''PriorityHigh'', ''priority-high'', map_option JInts (PriorityHigh tsp)),
     (''PriorityLow'', ''priority-low'', map_option JInts (PriorityLow tsp)),
     (''PriorityNormal'', ''priority-normal'', map_option JInts (PriorityNormal tsp)),
     (''QueuePosition'', ''queuePosition'', map_option JInt (QueuePosition tsp)),
     (''SeedIdleLimit'', ''-'', map_option JInt (SeedIdleLimit tsp)),
     (''SeedIdleMode'', ''seedIdleMode'', map_option JInt (SeedIdleMode tsp)),
     (''SeedRatioLimit'', ''seedRatioLimit'', map_option JFloat (SeedRatioLimit tsp)),
     (''SeedRatioMode'', ''seedRatioMode'', map_option JMode (SeedRatioMode tsp)),
     (''TrackerList'', ''-'',
        (if TrackerList tsp = nil then None else Some (JStrings (elems h (TrackerList tsp))))),
     (''UploadLimit'', ''uploadLimit'', map_option JInt (UploadLimit tsp)),
     (''UploadLimited'', ''uploadLimited'', map_option JBool (UploadLimited tsp))]"

text \<open>The fields of \<open>tmp\<close> (lines 91 to 105).\<close>

definition tmp_fields :: "heap \<Rightarrow> TorrentSetPayload \<Rightarrow> struct_field list" where
  "tmp_fields h tsp =
    [(''SeedIdleLimit'', ''seedIdleLimit'',
        (case SeedIdleLimit tsp of None \<Rightarrow> None
         | Some d \<Rightarrow> Some (JInt (int64_quo d time_Minute)))),
     (''TrackerList'', ''trackerList'',
        (if TrackerList tsp \<noteq> nil
         then Some (JString (strings_Join (elems h (TrackerList tsp)) [CHR 0x0A]))
         else None)),
     (''baseTorrentSetPayload'', [], Some JEmbedded)]"

text \<open>The loop over the fields of the nested struct (lines 120 to 129).\<close>

fun nested_walk :: "struct_field list \<Rightarrow> wire_mapping \<Rightarrow> wire_mapping" where
  "nested_walk [] cleanPayload = cleanPayload"
| "nested_walk ((name, JSONKeyName, v) # fs) cleanPayload =
     nested_walk fs
       (case v of None \<Rightarrow> cleanPayload
        | Some x \<Rightarrow>
            if JSONKeyName \<noteq> ''-'' then cleanPayload(JSONKeyName \<mapsto> x) else cleanPayload)"

text \<open>
  The loop over the fields of \<open>tmp\<close> (lines 113 to 135); \<open>nested\<close> are the fields of the
  struct that the embedded pointer refers to.
\<close>

fun field_walk :: "struct_field list \<Rightarrow> struct_field list \<Rightarrow> wire_mapping \<Rightarrow> wire_mapping" where
  "field_walk nested [] cleanPayload = cleanPayload"
| "field_walk nested ((name, tag, v) # fs) cleanPayload =
     field_walk nested fs
       (case v of None \<Rightarrow> cleanPayload
        | Some x \<Rightarrow>
            if name = ''baseTorrentSetPayload'' then nested_walk nested cleanPayload
            else cleanPayload(tag \<mapsto> x))"

text \<open>The mapping \<open>cleanPayload\<close> as it is when line 137 is reached.\<close>

definition cleanPayload :: "heap \<Rightarrow> TorrentSetPayload \<Rightarrow> wire_mapping" where
  "cleanPayload h tsp =
     field_walk (baseTorrentSetPayload_fields h tsp) (tmp_fields h tsp) Map.empty"

text \<open>
  \<open>MarshalJSON\<close> returns \<open>json.Marshal(cleanPayload)\<close>. The standard library's encoder is
  a parameter: whatever it is, it is a function of the mapping.
\<close>

definition MarshalJSON :: "(wire_mapping \<Rightarrow> 'r) \<Rightarrow> heap \<Rightarrow> TorrentSetPayload \<Rightarrow> 'r" where
  "MarshalJSON json_Marshal h tsp = json_Marshal (cleanPayload h tsp)"

text \<open>
  For the proofs: the value that the loop over the nested struct stores last under the key
  \<open>k\<close>, if it stores one.
\<close>

fun nested_set :: "struct_field list \<Rightarrow> string \<Rightarrow> jvalue option" where
  "nested_set [] k = None"
| "nested_set ((name, JSONKeyName, v) # fs) k =
     (case nested_set fs k of Some x \<Rightarrow> Some x
      | None \<Rightarrow> if JSONKeyName = k \<and> JSONKeyName \<noteq> ''-'' then v else None)"

section \<open>TorrentSet\<close>

text \<open>\<open>len(payload.IDs)\<close>; the length of a nil slice is 0.\<close>

fun len_opt :: "'a list option \<Rightarrow> nat" where
  "len_opt None = 0"
| "len_opt (Some xs) = length xs"

text \<open>
  \<open>sort.Strings(x)\<close> sorts the cells of \<open>x\<close> in place into increasing order. Strings
  that compare equal are equal, so the sorted contents are determined.
\<close>

definition sort_Strings :: "heap \<Rightarrow> slice \<Rightarrow> heap" where
  "sort_Strings h x = store_elems h x (sort (elems h x))"

text \<open>\<open>compact\<close> called on a slice of the heap: it rewrites the cells and returns \<open>s[:k]\<close>.\<close>

definition compact_slice :: "heap \<Rightarrow> slice \<Rightarrow> (heap \<times> slice) option" where
  "compact_slice h s =
     (case compact (elems h s) of None \<Rightarrow> None
      | Some (w, k) \<Rightarrow> Some (store_elems h s w, reslice s k))"

text \<open>
  One call of \<open>c.rpcCall(ctx, method, payload, nil)\<close>: the context, the method name, the
  payload handed over and the heap at that moment.
\<close>

record 'ctx rpc_invocation =
  rpc_ctx :: 'ctx
  rpc_method :: string
  rpc_payload :: TorrentSetPayload
  rpc_heap :: heap

text \<open>
  What a call of \<open>TorrentSet\<close> leaves behind: the error it returns, the heap, and the
  calls of the transport it made, in order.
\<close>

record 'ctx outcome =
  err :: "error option"
  heap_after :: heap
  invocations :: "'ctx rpc_invocation list"

text \<open>
  \<open>TorrentSet\<close>. The transport \<open>rpcCall\<close> lives in another file of the package and is a
  parameter: a function from what it is called with to the error it returns (\<open>None\<close> for
  a nil error). It is taken to read its arguments only. The result is \<open>None\<close> if the call
  panics.
\<close>

definition TorrentSet ::
  "('ctx rpc_invocation \<Rightarrow> error option) \<Rightarrow> heap \<Rightarrow> 'ctx \<Rightarrow> TorrentSetPayload
     \<Rightarrow> 'ctx outcome option" where
  "TorrentSet rpcCall h ctx payload =
     (if len_opt (IDs payload) = 0 then
        Some \<lparr>err = Some (errors_New ''there must be at least one ID''),
              heap_after = h, invocations = []\<rparr>
      else
        let h1 = sort_Strings h (TrackerList payload) in
        (case compact_slice h1 (TrackerList payload) of None \<Rightarrow> None
         | Some (h2, s) \<Rightarrow>
             let payload' = payload\<lparr>TrackerList := s\<rparr>;
                 call = \<lparr>rpc_ctx = ctx, rpc_method = ''torrent-set'',
                         rpc_payload = payload', rpc_heap = h2\<rparr>
             in Some \<lparr>err = (case rpcCall call of None \<Rightarrow> None
                             | Some e \<Rightarrow>
                                 Some (fmt_Errorf_w
                                   ([CHR 0x27] @ ''torrent-set'' @ [CHR 0x27] @ '' rpc method failed: '') e)),
                      heap_after = h2, invocations = [call]\<rparr>))"

text \<open>
  Two notions for stating what \<open>TorrentSet\<close> does to a payload. \<open>separate\<close>: no other
  string storage of the payload shares a cell with the tracker list.
  \<open>same_other_attributes\<close>: two payloads, each on its heap, have the same attributes
  apart from the tracker list, that is, the attributes held by value are equal, the
  labels are both nil or both non-nil with the same elements, and the group and the
  location are both nil or point at equal strings.
\<close>

definition separate :: "TorrentSetPayload \<Rightarrow> bool" where
  "separate p \<longleftrightarrow>
     cells (Labels p) \<inter> cells (TrackerList p) = {} \<and>
     set_option (Group p) \<inter> cells (TrackerList p) = {} \<and>
     set_option (Location p) \<inter> cells (TrackerList p) = {}"

definition same_other_attributes ::
  "heap \<Rightarrow> TorrentSetPayload \<Rightarrow> heap \<Rightarrow> TorrentSetPayload \<Rightarrow> bool" where
  "same_other_attributes h p h' q \<longleftrightarrow>
     p\<lparr>Group := None, Labels := nil, Location := None, TrackerList := nil\<rparr>
       = q\<lparr>Group := None, Labels := nil, Location := None, TrackerList := nil\<rparr> \<and>
     (Labels p = nil) = (Labels q = nil) \<and>
     elems h (Labels p) = elems h' (Labels q) \<and>
     map_option h (Group p) = map_option h' (Group q) \<and>
     map_option h (Location p) = map_option h' (Location q)"

section \<open>What compact computes\<close>

text \<open>
  The inner loop, started with \<open>k2\<close> cells of \<open>s2\<close> already read and the write index
  \<open>k\<close> behind the read index: it does not panic, appends to the first \<open>k\<close> cells the cells
  from \<open>s2[k2]\<close> on that differ from the cell before them, and leaves the cells from the
  returned length on as they were.
\<close>

lemma compact_inner_result:
  "1 \<le> k2 \<Longrightarrow> k0 \<le> k \<Longrightarrow> k < k0 + k2 \<Longrightarrow> k0 + k2 \<le> length s \<Longrightarrow>
   \<exists>s' k'. compact_inner s k0 k2 k = Some (s', k') \<and> length s' = length s \<and>
     k \<le> k' \<and> k' \<le> length s \<and>
     take k' s' = take k s @ tl (remdups_adj (drop (k0 + k2 - 1) s)) \<and>
     drop k' s' = drop k' s"
proof (induction s k0 k2 k rule: compact_inner.induct)
  case (1 s k0 k2 k)
  show ?case
  proof (cases "k2 < length s - k0")
    case False
    with "1.prems" have len: "k0 + k2 = length s" by simp
    then have "drop (k0 + k2 - 1) s = [last s]"
      using "1.prems"
      by (metis One_nat_def Suc_le_eq add_gr_0 append_butlast_last_id append_eq_conv_conj
          length_butlast length_greater_0_conv)
    with False "1.prems" show ?thesis
      by (subst compact_inner.simps) (simp add: reslice_to_def)
  next
    case True
    define a where "a = s ! (k0 + k2)"
    define b where "b = s ! (k0 + (k2 - 1))"
    from True "1.prems" have ia: "index_at s (k0 + k2) = Some a"
      and ib: "index_at s (k0 + (k2 - 1)) = Some b"
      by (simp_all add: index_at_def a_def b_def)
    from True "1.prems" have d1: "drop (k0 + k2 - 1) s = b # drop (k0 + k2) s"
      by (simp add: b_def Cons_nth_drop_Suc [symmetric] Suc_diff_le)
    from True have d2: "drop (k0 + k2) s = a # drop (Suc (k0 + k2)) s"
      by (simp add: a_def Cons_nth_drop_Suc)
    show ?thesis
    proof (cases "a = b")
      case same: True
      from "1.prems" True
      have pre: "1 \<le> k2 + 1" "k0 \<le> k" "k < k0 + (k2 + 1)" "k0 + (k2 + 1) \<le> length s"
        by simp_all
      from "1.IH"(2) [OF True ia ib _ pre] same
      obtain s' k' where r: "compact_inner s k0 (k2 + 1) k = Some (s', k')"
        "length s' = length s" "k \<le> k'" "k' \<le> length s"
        "take k' s' = take k s @ tl (remdups_adj (drop (k0 + (k2 + 1) - 1) s))"
        "drop k' s' = drop k' s"
        by auto
      have "compact_inner s k0 k2 k = Some (s', k')"
        using True ia ib same r(1) by (subst compact_inner.simps) simp
      moreover have "tl (remdups_adj (drop (k0 + k2 - 1) s))
                     = tl (remdups_adj (drop (k0 + (k2 + 1) - 1) s))"
        using d1 d2 same by simp
      ultimately show ?thesis using r by simp
    next
      case diff: False
      from True "1.prems" have klt: "k < length s" by simp
      define s1 where "s1 = s[k := a]"
      have as: "assign_at s k a = Some s1"
        using klt by (simp add: assign_at_def s1_def)
      have pre: "1 \<le> k2 + 1" "k0 \<le> k + 1" "k + 1 < k0 + (k2 + 1)"
        "k0 + (k2 + 1) \<le> length s1"
        using "1.prems" True by (simp_all add: s1_def)
      from "1.IH"(1) [OF True ia ib _ as pre] diff
      obtain s' k' where r: "compact_inner s1 k0 (k2 + 1) (k + 1) = Some (s', k')"
        "length s' = length s1" "k + 1 \<le> k'" "k' \<le> length s1"
        "take k' s' = take (k + 1) s1 @ tl (remdups_adj (drop (k0 + (k2 + 1) - 1) s1))"
        "drop k' s' = drop k' s1"
        by auto
      have c: "compact_inner s k0 k2 k = Some (s', k')"
        using True ia ib diff as r(1) by (subst compact_inner.simps) simp
      have t: "take (k + 1) s1 = take k s @ [a]"
        using klt by (simp add: s1_def take_Suc_conv_app_nth)
      have dd: "drop (k0 + (k2 + 1) - 1) s1 = drop (k0 + k2) s"
        using "1.prems" by (simp add: s1_def)
      have dk: "drop k' s1 = drop k' s"
        using r(3) by (simp add: s1_def)
      have "take k s @ tl (remdups_adj (drop (k0 + k2 - 1) s))
            = take k s @ a # tl (remdups_adj (a # drop (Suc (k0 + k2)) s))"
        using d1 d2 diff by simp
      with c r t dd dk d2 show ?thesis by (simp add: s1_def)
    qed
  qed
qed

lemma compact_outer_result:
  "1 \<le> k \<Longrightarrow> k \<le> length s \<Longrightarrow> distinct_adj (take k s) \<Longrightarrow>
   \<exists>s' k'. compact_outer s k = Some (s', k') \<and> length s' = length s \<and>
     k' \<le> length s \<and> take k' s' = remdups_adj s \<and> drop k' s' = drop k' s"
proof (induction s k rule: compact_outer.induct)
  case (1 s k)
  show ?case
  proof (cases "k < length s")
    case False
    with "1.prems" have "remdups_adj s = s"
      by (simp add: distinct_adj_altdef)
    with False show ?thesis
      by (subst compact_outer.simps) simp
  next
    case True
    define a where "a = s ! k"
    define b where "b = s ! (k - 1)"
    from True "1.prems" have ia: "index_at s k = Some a" and ib: "index_at s (k - 1) = Some b"
      by (simp_all add: index_at_def a_def b_def)
    from True "1.prems" have tk: "take k s = take (k - 1) s @ [b]"
      by (metis b_def Suc_diff_1 less_le_trans less_imp_diff_less take_Suc_conv_app_nth zero_less_one)
    from True have dk: "drop k s = a # drop (Suc k) s"
      by (simp add: a_def Cons_nth_drop_Suc)
    show ?thesis
    proof (cases "a = b")
      case same: True
      from compact_inner_result [of 1 k k s] True
      obtain s' k' where r: "compact_inner s k 1 k = Some (s', k')"
        "length s' = length s" "k' \<le> length s"
        "take k' s' = take k s @ tl (remdups_adj (drop k s))" "drop k' s' = drop k' s"
        by auto
      have c: "compact_outer s k = Some (s', k')"
        using True ia ib same r(1) by (subst compact_outer.simps) simp
      have "remdups_adj (take k s @ [a]) = take k s"
        using "1.prems"(3) same
        by (simp add: tk remdups_adj_append_two distinct_adj_altdef)
      then have "remdups_adj (take k s @ a # drop (Suc k) s)
                 = take k s @ tl (remdups_adj (a # drop (Suc k) s))"
        using remdups_adj_append [of "take k s" a "drop (Suc k) s"] by simp
      then have "remdups_adj s = take k s @ tl (remdups_adj (drop k s))"
        by (metis dk append_take_drop_id)
      with c r show ?thesis by simp
    next
      case diff: False
      have "take (k + 1) s = take k s @ [a]"
        using True by (simp add: a_def take_Suc_conv_app_nth)
      then have "distinct_adj (take (k + 1) s)"
        using "1.prems"(3) diff by (simp add: tk distinct_adj_append_iff)
      with "1.IH" [OF True ia ib diff] True
      obtain s' k' where r: "compact_outer s (k + 1) = Some (s', k')"
        "length s' = length s" "k' \<le> length s"
        "take k' s' = remdups_adj s" "drop k' s' = drop k' s"
        by auto
      have "compact_outer s k = Some (s', k')"
        using True ia ib diff r(1) by (subst compact_outer.simps) simp
      with r show ?thesis by simp
    qed
  qed
qed

text \<open>
  \<open>compact\<close> on any sequence, sorted or not: it does not panic, the slice it returns
  holds the sequence without adjacent repeats, and the cells are otherwise as they were.
\<close>

lemma compact_result:
  "\<exists>s' k. compact s = Some (s', k) \<and> length s' = length s \<and> k \<le> length s \<and>
     take k s' = remdups_adj s \<and> drop k s' = drop k s"
proof (cases "length s < 2")
  case True
  then have "remdups_adj s = s"
    by (cases s rule: remdups_adj.cases) simp_all
  with True show ?thesis by (simp add: compact_def)
next
  case False
  then have "distinct_adj (take 1 s)"
    by (cases s) simp_all
  with False compact_outer_result [of 1 s] show ?thesis
    by (simp add: compact_def)
qed


lemma skip_repeats_remdups_adj: "skip_repeats p xs = tl (remdups_adj (p # xs))"
  by (induction xs arbitrary: p) auto

lemma normalize_spec_remdups_adj: "normalize_spec xs = remdups_adj xs"
  by (cases xs) (simp_all add: skip_repeats_remdups_adj)

lemma subseq_remdups_adj: "subseq (remdups_adj xs) xs"
  by (induction xs rule: remdups_adj.induct) auto

lemma distinct_remdups_adj_sorted:
  fixes xs :: "'a::linorder list"
  shows "sorted xs \<Longrightarrow> distinct (remdups_adj xs)"
  by (induction xs rule: remdups_adj.induct) auto

lemma compact_fixed_point:
  "distinct_adj t \<Longrightarrow> compact t = Some (t, length t)"
proof -
  assume d: "distinct_adj t"
  from compact_result [of t] obtain t' k where r: "compact t = Some (t', k)"
    "length t' = length t" "k \<le> length t" "take k t' = remdups_adj t"
    by blast
  from d r(4) have tk: "take k t' = t" by (simp add: distinct_adj_altdef)
  then have "length (take k t') = length t" by simp
  with r(2,3) have "k = length t" by simp
  with tk r(2) have "t' = t" by simp
  with r(1) \<open>k = length t\<close> show ?thesis by simp
qed

text \<open>
  Claim C3. For every sequence \<open>s\<close> sorted ascending, \<open>compact\<close> returns (it does not
  panic) the first \<open>k\<close> cells of the array it was given, and these cells hold the
  sequence obtained by scanning \<open>s\<close> from left to right and removing each element equal
  to its immediate predecessor (\<open>normalize_spec\<close>), a subsequence of \<open>s\<close>. The array keeps
  its length and its cells from \<open>k\<close> on are untouched. The empty sequence and a sequence
  of one element are returned unchanged.
\<close>

theorem compact_removes_repeats_of_predecessor:
  fixes s :: "'a::linorder list"
  assumes "sorted s"
  shows "(\<exists>s' k. compact s = Some (s', k) \<and> take k s' = normalize_spec s \<and>
            subseq (take k s') s \<and>
            length s' = length s \<and> k \<le> length s \<and> drop k s' = drop k s) \<and>
         compact ([] :: 'a list) = Some ([], 0) \<and>
         (\<forall>x :: 'a. compact [x] = Some ([x], 1))"
proof -
  from compact_result [of s] obtain s' k where r: "compact s = Some (s', k)"
    "length s' = length s" "k \<le> length s" "take k s' = remdups_adj s" "drop k s' = drop k s"
    by blast
  then have "\<exists>s' k. compact s = Some (s', k) \<and> take k s' = normalize_spec s \<and>
            subseq (take k s') s \<and>
            length s' = length s \<and> k \<le> length s \<and> drop k s' = drop k s"
    by (simp add: normalize_spec_remdups_adj subseq_remdups_adj)
  then show ?thesis by (simp add: compact_def)
qed

theorem compact_removes_repeats_of_predecessor_witness:
  "sorted [1, 1, 2, 3, 3, 3 :: nat] \<and>
   (\<exists>s' k. compact [1, 1, 2, 3, 3, 3 :: nat] = Some (s', k) \<and> take k s' = [1, 2, 3] \<and>
      s' = [1, 2, 3, 3, 3, 3] \<and> k = 3 \<and> drop k s' = drop k [1, 1, 2, 3, 3, 3])"
proof -
  have h: "sorted [1, 1, 2, 3, 3, 3 :: nat]" by simp
  have c: "compact [1, 1, 2, 3, 3, 3 :: nat] = Some ([1, 2, 3, 3, 3, 3], 3)" by code_simp
  show ?thesis
    using h c compact_removes_repeats_of_predecessor [OF h] by simp
qed

text \<open>
  Claim C4. For every sorted sequence \<open>s\<close>, the slice that \<open>compact\<close> returns has no two
  adjacent equal elements (and, \<open>s\<close> being sorted, no two equal elements at all), is a
  subsequence of \<open>s\<close> (elements of \<open>s\<close> in the order in which they occur there), and
  \<open>compact\<close> applied to it returns it unchanged.
\<close>

theorem compact_no_adjacent_equal_subseq_idempotent:
  fixes s :: "'a::linorder list"
  assumes "sorted s"
  shows "\<exists>s' k. compact s = Some (s', k) \<and>
           distinct_adj (take k s') \<and> distinct (take k s') \<and>
           subseq (take k s') s \<and>
           compact (take k s') = Some (take k s', k)"
proof -
  from compact_result [of s] obtain s' k where r: "compact s = Some (s', k)"
    "length s' = length s" "k \<le> length s" "take k s' = remdups_adj s"
    by blast
  have "distinct_adj (take k s')" by (simp add: r(4))
  moreover have "distinct (take k s')"
    using assms by (simp add: r(4) distinct_remdups_adj_sorted)
  moreover have "subseq (take k s') s" by (simp add: r(4) subseq_remdups_adj)
  moreover have "compact (take k s') = Some (take k s', k)"
  proof -
    have "length (take k s') = k" using r(2,3) by simp
    moreover have "distinct_adj (take k s')" by (simp add: r(4))
    ultimately show ?thesis using compact_fixed_point [of "take k s'"] by simp
  qed
  ultimately show ?thesis using r(1) by simp
qed

theorem compact_no_adjacent_equal_subseq_idempotent_witness:
  "sorted [''a'', ''a'', ''b'', ''c'', ''c''] \<and>
   (\<exists>s' k. compact [''a'', ''a'', ''b'', ''c'', ''c''] = Some (s', k) \<and>
      take k s' = [''a'', ''b'', ''c''] \<and>
      compact (take k s') = Some (take k s', k))"
proof -
  have h: "sorted [''a'', ''a'', ''b'', ''c'', ''c'']" by simp
  have c: "compact [''a'', ''a'', ''b'', ''c'', ''c''] = Some ([''a'', ''b'', ''c'', ''c'', ''c''], 3)"
    by code_simp
  show ?thesis
    using h c compact_no_adjacent_equal_subseq_idempotent [OF h] by simp
qed

section \<open>What MarshalJSON encodes\<close>

lemma nested_walk_apply:
  "nested_walk fs m k = (case nested_set fs k of None \<Rightarrow> m k | Some x \<Rightarrow> Some x)"
  by (induction fs m rule: nested_walk.induct) (auto split: option.splits)

lemma nested_set_other:
  "k = ''-'' \<or> k \<notin> set (map (\<lambda>(name, JSONKeyName, v). JSONKeyName) fs)
   \<Longrightarrow> nested_set fs k = None"
  by (induction fs k rule: nested_set.induct) auto

lemma case_option_id: "(case v of None \<Rightarrow> None | Some x \<Rightarrow> Some x) = v"
  by (cases v) simp_all

lemma case_option_map: "(case v of None \<Rightarrow> None | Some x \<Rightarrow> (Some \<circ> f) x) = map_option f v"
  by (cases v) simp_all

text \<open>
  The two overloaded fields of \<open>tmp\<close> are stored first, then the nested loop runs and
  overrides what it stores.
\<close>

lemma cleanPayload_apply:
  "cleanPayload h tsp k =
     (case nested_set (baseTorrentSetPayload_fields h tsp) k of
        Some x \<Rightarrow> Some x
      | None \<Rightarrow>
          if k = ''trackerList'' \<and> TrackerList tsp \<noteq> nil
          then Some (JString (strings_Join (elems h (TrackerList tsp)) [CHR 0x0A]))
          else if k = ''seedIdleLimit''
          then map_option (\<lambda>d. JInt (int64_quo d time_Minute)) (SeedIdleLimit tsp)
          else None)"
  by (cases "SeedIdleLimit tsp")
     (auto simp: cleanPayload_def tmp_fields_def nested_walk_apply split: option.splits)

lemmas walk_simps =
  cleanPayload_apply baseTorrentSetPayload_fields_def case_option_id case_option_map

lemma cleanPayload_at_key:
  "cleanPayload h tsp ''bandwidthPriority'' = map_option JInt (BandwidthPriority tsp)"
  "cleanPayload h tsp ''downloadLimit'' = map_option JInt (DownloadLimit tsp)"
  "cleanPayload h tsp ''downloadLimited'' = map_option JBool (DownloadLimited tsp)"
  "cleanPayload h tsp ''files-wanted'' = map_option JInts (FilesWanted tsp)"
  "cleanPayload h tsp ''files-unwanted'' = map_option JInts (FilesUnwanted tsp)"
  "cleanPayload h tsp ''group'' = map_option (\<lambda>p. JString (h p)) (Group tsp)"
  "cleanPayload h tsp ''honorsSessionLimits'' = map_option JBool (HonorsSessionLimits tsp)"
  "cleanPayload h tsp ''ids'' = map_option JInts (IDs tsp)"
  "cleanPayload h tsp ''labels'' =
     (if Labels tsp = nil then None else Some (JStrings (elems h (Labels tsp))))"
  "cleanPayload h tsp ''location'' = map_option (\<lambda>p. JString (h p)) (Location tsp)"
  "cleanPayload h tsp ''peer-limit'' = map_option JInt (PeerLimit tsp)"
  "cleanPayload h tsp ''priority-high'' = map_option JInts (PriorityHigh tsp)"
  "cleanPayload h tsp ''priority-low'' = map_option JInts (PriorityLow tsp)"
  "cleanPayload h tsp ''priority-normal'' = map_option JInts (PriorityNormal tsp)"
  "cleanPayload h tsp ''queuePosition'' = map_option JInt (QueuePosition tsp)"
  "cleanPayload h tsp ''seedIdleLimit'' =
     map_option (\<lambda>d. JInt (int64_quo d time_Minute)) (SeedIdleLimit tsp)"
  "cleanPayload h tsp ''seedIdleMode'' = map_option JInt (SeedIdleMode tsp)"
  "cleanPayload h tsp ''seedRatioLimit'' = map_option JFloat (SeedRatioLimit tsp)"
  "cleanPayload h tsp ''seedRatioMode'' = map_option JMode (SeedRatioMode tsp)"
  "cleanPayload h tsp ''trackerList'' =
     (if TrackerList tsp = nil then None
      else Some (JString (strings_Join (elems h (TrackerList tsp)) [CHR 0x0A])))"
  "cleanPayload h tsp ''uploadLimit'' = map_option JInt (UploadLimit tsp)"
  "cleanPayload h tsp ''uploadLimited'' = map_option JBool (UploadLimited tsp)"
  by (simp_all add: walk_simps)

lemma cleanPayload_other_key:
  "k \<notin> set
      [''bandwidthPriority'', ''downloadLimit'', ''downloadLimited'',
       ''files-wanted'', ''files-unwanted'', ''group'', ''honorsSessionLimits'',
       ''ids'', ''labels'', ''location'', ''peer-limit'', ''priority-high'',
       ''priority-low'', ''priority-normal'', ''queuePosition'', ''seedIdleLimit'',
       ''seedIdleMode'', ''seedRatioLimit'', ''seedRatioMode'', ''trackerList'',
       ''uploadLimit'', ''uploadLimited'']
   \<Longrightarrow> cleanPayload h tsp k = None"
proof -
  assume a: "k \<notin> set
      [''bandwidthPriority'', ''downloadLimit'', ''downloadLimited'',
       ''files-wanted'', ''files-unwanted'', ''group'', ''honorsSessionLimits'',
       ''ids'', ''labels'', ''location'', ''peer-limit'', ''priority-high'',
       ''priority-low'', ''priority-normal'', ''queuePosition'', ''seedIdleLimit'',
       ''seedIdleMode'', ''seedRatioLimit'', ''seedRatioMode'', ''trackerList'',
       ''uploadLimit'', ''uploadLimited'']"
  then have "k = ''-'' \<or> k \<notin> set
      (map (\<lambda>(name, JSONKeyName, v). JSONKeyName) (baseTorrentSetPayload_fields h tsp))"
    by (simp add: baseTorrentSetPayload_fields_def)
  then have "nested_set (baseTorrentSetPayload_fields h tsp) k = None"
    by (rule nested_set_other)
  moreover from a have "k \<noteq> ''trackerList''" "k \<noteq> ''seedIdleLimit''" by simp_all
  ultimately show ?thesis by (simp add: cleanPayload_apply)
qed

lemma cleanPayload_table:
  "cleanPayload h tsp = (\<lambda>k.
      if k = ''bandwidthPriority'' then map_option JInt (BandwidthPriority tsp) else
      if k = ''downloadLimit'' then map_option JInt (DownloadLimit tsp) else
      if k = ''downloadLimited'' then map_option JBool (DownloadLimited tsp) else
      if k = ''files-wanted'' then map_option JInts (FilesWanted tsp) else
      if k = ''files-unwanted'' then map_option JInts (FilesUnwanted tsp) else
      if k = ''group'' then map_option (\<lambda>p. JString (h p)) (Group tsp) else
      if k = ''honorsSessionLimits'' then map_option JBool (HonorsSessionLimits tsp) else
      if k = ''ids'' then map_option JInts (IDs tsp) else
      if k = ''labels'' then
        (if Labels tsp = nil then None else Some (JStrings (elems h (Labels tsp)))) else
      if k = ''location'' then map_option (\<lambda>p. JString (h p)) (Location tsp) else
      if k = ''peer-limit'' then map_option JInt (PeerLimit tsp) else
      if k = ''priority-high'' then map_option JInts (PriorityHigh tsp) else
      if k = ''priority-low'' then map_option JInts (PriorityLow tsp) else
      if k = ''priority-normal'' then map_option JInts (PriorityNormal tsp) else
      if k = ''queuePosition'' then map_option JInt (QueuePosition tsp) else
      if k = ''seedIdleLimit'' then
        map_option (\<lambda>d. JInt (int64_quo d time_Minute)) (SeedIdleLimit tsp) else
      if k = ''seedIdleMode'' then map_option JInt (SeedIdleMode tsp) else
      if k = ''seedRatioLimit'' then map_option JFloat (SeedRatioLimit tsp) else
      if k = ''seedRatioMode'' then map_option JMode (SeedRatioMode tsp) else
      if k = ''trackerList'' then
        (if TrackerList tsp = nil then None
         else Some (JString (strings_Join (elems h (TrackerList tsp)) [CHR 0x0A]))) else
      if k = ''uploadLimit'' then map_option JInt (UploadLimit tsp) else
      if k = ''uploadLimited'' then map_option JBool (UploadLimited tsp) else
      None)"
proof (rule ext)
  fix k
  show "cleanPayload h tsp k = (
      if k = ''bandwidthPriority'' then map_option JInt (BandwidthPriority tsp) else
      if k = ''downloadLimit'' then map_option JInt (DownloadLimit tsp) else
      if k = ''downloadLimited'' then map_option JBool (DownloadLimited tsp) else
      if k = ''files-wanted'' then map_option JInts (FilesWanted tsp) else
      if k = ''files-unwanted'' then map_option JInts (FilesUnwanted tsp) else
      if k = ''group'' then map_option (\<lambda>p. JString (h p)) (Group tsp) else
      if k = ''honorsSessionLimits'' then map_option JBool (HonorsSessionLimits tsp) else
      if k = ''ids'' then map_option JInts (IDs tsp) else
      if k = ''labels'' then
        (if Labels tsp = nil then None else Some (JStrings (elems h (Labels tsp)))) else
      if k = ''location'' then map_option (\<lambda>p. JString (h p)) (Location tsp) else
      if k = ''peer-limit'' then map_option JInt (PeerLimit tsp) else
      if k = ''priority-high'' then map_option JInts (PriorityHigh tsp) else
      if k = ''priority-low'' then map_option JInts (PriorityLow tsp) else
      if k = ''priority-normal'' then map_option JInts (PriorityNormal tsp) else
      if k = ''queuePosition'' then map_option JInt (QueuePosition tsp) else
      if k = ''seedIdleLimit'' then
        map_option (\<lambda>d. JInt (int64_quo d time_Minute)) (SeedIdleLimit tsp) else
      if k = ''seedIdleMode'' then map_option JInt (SeedIdleMode tsp) else
      if k = ''seedRatioLimit'' then map_option JFloat (SeedRatioLimit tsp) else
      if k = ''seedRatioMode'' then map_option JMode (SeedRatioMode tsp) else
      if k = ''trackerList'' then
        (if TrackerList tsp = nil then None
         else Some (JString (strings_Join (elems h (TrackerList tsp)) [CHR 0x0A]))) else
      if k = ''uploadLimit'' then map_option JInt (UploadLimit tsp) else
      if k = ''uploadLimited'' then map_option JBool (UploadLimited tsp) else
      None)"
  proof (cases "k \<in> set
      [''bandwidthPriority'', ''downloadLimit'', ''downloadLimited'',
       ''files-wanted'', ''files-unwanted'', ''group'', ''honorsSessionLimits'',
       ''ids'', ''labels'', ''location'', ''peer-limit'', ''priority-high'',
       ''priority-low'', ''priority-normal'', ''queuePosition'', ''seedIdleLimit'',
       ''seedIdleMode'', ''seedRatioLimit'', ''seedRatioMode'', ''trackerList'',
       ''uploadLimit'', ''uploadLimited'']")
    case False
    then show ?thesis
      using cleanPayload_other_key [OF False, of h tsp] by simp
  next
    case True
    then show ?thesis
      by (auto simp: cleanPayload_at_key)
  qed
qed

lemma sint_time_Minute: "sint time_Minute = 60000000000"
  by (simp add: time_Minute_def)

lemma sint_int64_quo_Minute: "sint (int64_quo d time_Minute) = sint d sdiv 60000000000"
proof -
  define x where "x = sint d"
  define q where "q = x sdiv 60000000000"
  have b: "- (2 ^ 63) \<le> x" "x < 2 ^ 63"
    using sint_ge [of d] sint_lt [of d] by (simp_all add: x_def)
  then have m: "0 \<le> \<bar>x\<bar> div 60000000000" "\<bar>x\<bar> div 60000000000 < 2 ^ 63"
    by simp_all
  have "q = sgn x * (\<bar>x\<bar> div 60000000000)"
    by (simp add: q_def signed_divide_int_def)
  with m have "- (2 ^ 63) \<le> q" "q < 2 ^ 63"
    by (cases x "0 :: int" rule: linorder_cases; simp)+
  then have "signed_take_bit 63 q = q"
    by (simp add: signed_take_bit_int_eq_self)
  then show ?thesis
    by (simp add: int64_quo_def sint_time_Minute sint_sbintrunc' q_def x_def)
qed

text \<open>
  Claim C1. For every payload, the mapping that \<open>MarshalJSON\<close> hands to the JSON encoder
  holds exactly the attributes that are set, each under its wire key: looking up a key
  gives the value of its attribute when that attribute is set and nothing when it is
  unset, and a string that is no wire key gives nothing. An integer attribute set to 0
  and a boolean attribute set to false are therefore present with that value. A payload
  with every attribute unset except the identifier list encodes to a mapping with the
  single key \<open>ids\<close>.
\<close>

theorem MarshalJSON_exactly_set_attributes:
  "MarshalJSON json_Marshal h tsp = json_Marshal (\<lambda>k.
      if k = ''bandwidthPriority'' then map_option JInt (BandwidthPriority tsp) else
      if k = ''downloadLimit'' then map_option JInt (DownloadLimit tsp) else
      if k = ''downloadLimited'' then map_option JBool (DownloadLimited tsp) else
      if k = ''files-wanted'' then map_option JInts (FilesWanted tsp) else
      if k = ''files-unwanted'' then map_option JInts (FilesUnwanted tsp) else
      if k = ''group'' then map_option (\<lambda>p. JString (h p)) (Group tsp) else
      if k = ''honorsSessionLimits'' then map_option JBool (HonorsSessionLimits tsp) else
      if k = ''ids'' then map_option JInts (IDs tsp) else
      if k = ''labels'' then
        (if Labels tsp = nil then None else Some (JStrings (elems h (Labels tsp)))) else
      if k = ''location'' then map_option (\<lambda>p. JString (h p)) (Location tsp) else
      if k = ''peer-limit'' then map_option JInt (PeerLimit tsp) else
      if k = ''priority-high'' then map_option JInts (PriorityHigh tsp) else
      if k = ''priority-low'' then map_option JInts (PriorityLow tsp) else
      if k = ''priority-normal'' then map_option JInts (PriorityNormal tsp) else
      if k = ''queuePosition'' then map_option JInt (QueuePosition tsp) else
      if k = ''seedIdleLimit'' then
        map_option (\<lambda>d. JInt (int64_quo d time_Minute)) (SeedIdleLimit tsp) else
      if k = ''seedIdleMode'' then map_option JInt (SeedIdleMode tsp) else
      if k = ''seedRatioLimit'' then map_option JFloat (SeedRatioLimit tsp) else
      if k = ''seedRatioMode'' then map_option JMode (SeedRatioMode tsp) else
      if k = ''trackerList'' then
        (if TrackerList tsp = nil then None
         else Some (JString (strings_Join (elems h (TrackerList tsp)) [CHR 0x0A]))) else
      if k = ''uploadLimit'' then map_option JInt (UploadLimit tsp) else
      if k = ''uploadLimited'' then map_option JBool (UploadLimited tsp) else
      None) \<and>
   cleanPayload h (tsp\<lparr>BandwidthPriority := Some 0\<rparr>) ''bandwidthPriority'' = Some (JInt 0) \<and>
   cleanPayload h (tsp\<lparr>DownloadLimit := Some 0\<rparr>) ''downloadLimit'' = Some (JInt 0) \<and>
   cleanPayload h (tsp\<lparr>PeerLimit := Some 0\<rparr>) ''peer-limit'' = Some (JInt 0) \<and>
   cleanPayload h (tsp\<lparr>QueuePosition := Some 0\<rparr>) ''queuePosition'' = Some (JInt 0) \<and>
   cleanPayload h (tsp\<lparr>SeedIdleLimit := Some 0\<rparr>) ''seedIdleLimit'' = Some (JInt 0) \<and>
   cleanPayload h (tsp\<lparr>SeedIdleMode := Some 0\<rparr>) ''seedIdleMode'' = Some (JInt 0) \<and>
   cleanPayload h (tsp\<lparr>UploadLimit := Some 0\<rparr>) ''uploadLimit'' = Some (JInt 0) \<and>
   cleanPayload h (tsp\<lparr>DownloadLimited := Some False\<rparr>) ''downloadLimited'' = Some (JBool False) \<and>
   cleanPayload h (tsp\<lparr>HonorsSessionLimits := Some False\<rparr>) ''honorsSessionLimits'' = Some (JBool False) \<and>
   cleanPayload h (tsp\<lparr>UploadLimited := Some False\<rparr>) ''uploadLimited'' = Some (JBool False) \<and>
   cleanPayload h (zero_payload\<lparr>IDs := Some ids\<rparr>) = [''ids'' \<mapsto> JInts ids] \<and>
   dom (cleanPayload h (zero_payload\<lparr>IDs := Some ids\<rparr>)) = {''ids''}"
proof -
  have u: "cleanPayload h (zero_payload\<lparr>IDs := Some ids\<rparr>) = [''ids'' \<mapsto> JInts ids]"
    by (rule ext) (simp add: cleanPayload_table zero_payload_def)
  show ?thesis
    unfolding MarshalJSON_def u
    by (subst cleanPayload_table)
       (simp add: cleanPayload_at_key int64_quo_def time_Minute_def)
qed

text \<open>
  Claim C6. When \<open>SeedIdleLimit\<close> is set to a duration \<open>d\<close>, the mapping holds under the
  key \<open>seedIdleLimit\<close> the integer \<open>d / time.Minute\<close>, which is the number of whole
  minutes in \<open>d\<close>: the magnitude of \<open>d\<close> in nanoseconds divided by 60000000000 and
  rounded down, with the sign of \<open>d\<close>. A duration of 90 seconds gives 1.
\<close>

theorem MarshalJSON_SeedIdleLimit_whole_minutes:
  "cleanPayload h (tsp\<lparr>SeedIdleLimit := Some d\<rparr>) ''seedIdleLimit''
     = Some (JInt (int64_quo d time_Minute)) \<and>
   sint (int64_quo d time_Minute) = sgn (sint d) * (\<bar>sint d\<bar> div 60000000000) \<and>
   cleanPayload h (tsp\<lparr>SeedIdleLimit := Some 90000000000\<rparr>) ''seedIdleLimit''
     = Some (JInt 1)"
proof -
  have "sint (int64_quo d time_Minute) = sgn (sint d) * (\<bar>sint d\<bar> div 60000000000)"
    by (simp add: sint_int64_quo_Minute signed_divide_int_def)
  moreover have "int64_quo 90000000000 time_Minute = 1"
    by (simp add: int64_quo_def time_Minute_def)
  ultimately show ?thesis
    by (simp add: cleanPayload_at_key)
qed

text \<open>
  Claim C7 says that every list-valued attribute that is present but empty is encoded as
  an empty list. The tracker list is a list-valued attribute, and it is encoded as a
  string: present but empty, it gives the key \<open>trackerList\<close> with the empty string,
  which is not an empty list.
\<close>

theorem MarshalJSON_empty_TrackerList_not_a_list:
  "TrackerList (zero_payload\<lparr>TrackerList := Slice 0 0\<rparr>) \<noteq> nil \<and>
   elems (\<lambda>a. []) (TrackerList (zero_payload\<lparr>TrackerList := Slice 0 0\<rparr>)) = [] \<and>
   cleanPayload (\<lambda>a. []) (zero_payload\<lparr>TrackerList := Slice 0 0\<rparr>) ''trackerList''
     = Some (JString []) \<and>
   cleanPayload (\<lambda>a. []) (zero_payload\<lparr>TrackerList := Slice 0 0\<rparr>) ''trackerList''
     \<noteq> Some (JStrings [])"
  by (simp add: cleanPayload_at_key zero_payload_def)

text \<open>
  Claim C7 as amended. Each of the list-valued attributes \<open>FilesWanted\<close>,
  \<open>FilesUnwanted\<close>, \<open>IDs\<close>, \<open>Labels\<close>, \<open>PriorityHigh\<close>, \<open>PriorityLow\<close> and
  \<open>PriorityNormal\<close>, when present but empty, is in the mapping under its wire key with
  an empty list as value; a present but empty \<open>TrackerList\<close> is in the mapping under
  \<open>trackerList\<close> with the empty string as value; and a nil list attribute, the tracker
  list included, has no key in the mapping.
\<close>

theorem MarshalJSON_empty_list_present_nil_list_absent:
  "cleanPayload h (tsp\<lparr>FilesWanted := Some []\<rparr>) ''files-wanted'' = Some (JInts []) \<and>
   cleanPayload h (tsp\<lparr>FilesUnwanted := Some []\<rparr>) ''files-unwanted'' = Some (JInts []) \<and>
   cleanPayload h (tsp\<lparr>IDs := Some []\<rparr>) ''ids'' = Some (JInts []) \<and>
   cleanPayload h (tsp\<lparr>Labels := Slice b 0\<rparr>) ''labels'' = Some (JStrings []) \<and>
   cleanPayload h (tsp\<lparr>PriorityHigh := Some []\<rparr>) ''priority-high'' = Some (JInts []) \<and>
   cleanPayload h (tsp\<lparr>PriorityLow := Some []\<rparr>) ''priority-low'' = Some (JInts []) \<and>
   cleanPayload h (tsp\<lparr>PriorityNormal := Some []\<rparr>) ''priority-normal'' = Some (JInts []) \<and>
   cleanPayload h (tsp\<lparr>TrackerList := Slice a 0\<rparr>) ''trackerList'' = Some (JString []) \<and>
   cleanPayload h (tsp\<lparr>FilesWanted := None\<rparr>) ''files-wanted'' = None \<and>
   cleanPayload h (tsp\<lparr>FilesUnwanted := None\<rparr>) ''files-unwanted'' = None \<and>
   cleanPayload h (tsp\<lparr>IDs := None\<rparr>) ''ids'' = None \<and>
   cleanPayload h (tsp\<lparr>Labels := nil\<rparr>) ''labels'' = None \<and>
   cleanPayload h (tsp\<lparr>PriorityHigh := None\<rparr>) ''priority-high'' = None \<and>
   cleanPayload h (tsp\<lparr>PriorityLow := None\<rparr>) ''priority-low'' = None \<and>
   cleanPayload h (tsp\<lparr>PriorityNormal := None\<rparr>) ''priority-normal'' = None \<and>
   cleanPayload h (tsp\<lparr>TrackerList := nil\<rparr>) ''trackerList'' = None"
  by (simp add: cleanPayload_at_key)

text \<open>
  Claim C10. A tracker list that is present but empty (a non-nil slice of length 0) is
  not left out of the mapping: the key \<open>trackerList\<close> is there, and its value is the
  empty string, which is what joining no entries gives.
\<close>

theorem MarshalJSON_empty_TrackerList_empty_string:
  "strings_Join (elems h (Slice a 0)) [CHR 0x0A] = [] \<and>
   cleanPayload h (tsp\<lparr>TrackerList := Slice a 0\<rparr>) ''trackerList'' = Some (JString []) \<and>
   ''trackerList'' \<in> dom (cleanPayload h (tsp\<lparr>TrackerList := Slice a 0\<rparr>))"
  by (simp add: cleanPayload_at_key dom_def)

section \<open>What TorrentSet does\<close>

lemma length_elems: "length (elems h s) = card (cells s)"
  by (cases s) simp_all

lemma elems_store_elems:
  "length w = length (elems h s) \<Longrightarrow> elems (store_elems h s w) s = w"
  by (cases s) (auto intro!: nth_equalityI)

lemma elems_store_reslice:
  "length w = length (elems h s) \<Longrightarrow> k \<le> length w \<Longrightarrow>
   elems (store_elems h s w) (reslice s k) = take k w"
  by (cases s) (auto intro!: nth_equalityI)

lemma store_elems_twice:
  "length w = length (elems h s) \<Longrightarrow> length w' = length w \<Longrightarrow>
   store_elems (store_elems h s w) s w' = store_elems h s w'"
  by (cases s) (auto simp: fun_eq_iff)

lemma store_elems_outside: "a \<notin> cells s \<Longrightarrow> store_elems h s w a = h a"
  by (cases s) auto

lemma elems_outside:
  "\<forall>a. a \<notin> c \<longrightarrow> g a = h a \<Longrightarrow> cells t \<inter> c = {} \<Longrightarrow> elems g t = elems h t"
  by (cases t) auto

lemma map_option_outside:
  "\<forall>a. a \<notin> c \<longrightarrow> g a = h a \<Longrightarrow> set_option x \<inter> c = {} \<Longrightarrow>
   map_option g x = map_option h x"
  by (cases x) auto

lemma reslice_nil_iff: "reslice s k = nil \<longleftrightarrow> s = nil"
  by (cases s) simp_all

text \<open>
  With a non-empty identifier list \<open>TorrentSet\<close> does not panic, and what it does is
  determined: the cells of the tracker list hold the sorted entries with the repeats
  squeezed out of the front part, the transport is called once with the payload whose
  tracker list is that front part, and the error of the transport is wrapped.
\<close>

lemma TorrentSet_valid:
  fixes h :: heap and payload :: TorrentSetPayload and ctx :: 'ctx
  assumes "len_opt (IDs payload) \<noteq> 0"
  defines "xs \<equiv> elems h (TrackerList payload)"
  defines "ys \<equiv> remdups_adj (sort xs)"
  defines "h2 \<equiv> store_elems h (TrackerList payload) (ys @ drop (length ys) (sort xs))"
  defines "call \<equiv> \<lparr>rpc_ctx = ctx, rpc_method = ''torrent-set'',
      rpc_payload = payload\<lparr>TrackerList := reslice (TrackerList payload) (length ys)\<rparr>,
      rpc_heap = h2\<rparr>"
  shows "TorrentSet rpcCall h ctx payload =
     Some \<lparr>err = (case rpcCall call of None \<Rightarrow> None
                   | Some e \<Rightarrow> Some (fmt_Errorf_w ([CHR 0x27] @ ''torrent-set'' @ [CHR 0x27] @ '' rpc method failed: '') e)),
           heap_after = h2, invocations = [call]\<rparr>"
proof -
  define h1 where "h1 = sort_Strings h (TrackerList payload)"
  have e1: "elems h1 (TrackerList payload) = sort xs"
    by (simp add: h1_def sort_Strings_def xs_def elems_store_elems)
  from compact_result [of "sort xs"] obtain w k where c: "compact (sort xs) = Some (w, k)"
    "length w = length (sort xs)" "k \<le> length (sort xs)" "take k w = ys"
    "drop k w = drop k (sort xs)"
    unfolding ys_def by blast
  from c(2,3,4) have k: "k = length ys"
    by (metis length_take min.absorb2)
  have "w = take k w @ drop k w" by simp
  with c(4,5) k have w: "w = ys @ drop (length ys) (sort xs)" by simp
  have "store_elems h1 (TrackerList payload) w = store_elems h (TrackerList payload) w"
    unfolding h1_def sort_Strings_def
    by (rule store_elems_twice) (simp_all add: c(2) xs_def)
  then have s: "compact_slice h1 (TrackerList payload)
      = Some (h2, reslice (TrackerList payload) (length ys))"
    by (simp add: compact_slice_def e1 c(1) h2_def w [symmetric] k)
  show ?thesis
    using assms(1) s
    by (simp add: TorrentSet_def Let_def h1_def [symmetric] call_def)
qed

lemma length_normalized:
  "length (remdups_adj (sort xs) @ drop (length (remdups_adj (sort xs))) (sort xs)) = length xs"
proof -
  have "length (remdups_adj (sort xs)) \<le> length (sort xs)"
    by (rule remdups_adj_length)
  then show ?thesis by simp
qed

lemma elems_after_TorrentSet:
  "elems (store_elems h s (remdups_adj (sort (elems h s))
       @ drop (length (remdups_adj (sort (elems h s)))) (sort (elems h s))))
     (reslice s (length (remdups_adj (sort (elems h s)))))
   = remdups_adj (sort (elems h s))"
proof -
  define ys where "ys = remdups_adj (sort (elems h s))"
  have "length (ys @ drop (length ys) (sort (elems h s))) = length (elems h s)"
    unfolding ys_def by (rule length_normalized)
  then have "elems (store_elems h s (ys @ drop (length ys) (sort (elems h s))))
               (reslice s (length ys))
             = take (length ys) (ys @ drop (length ys) (sort (elems h s)))"
    by (rule elems_store_reslice) simp
  then show ?thesis by (simp add: ys_def)
qed

lemma TorrentSet_valid_call:
  assumes "len_opt (IDs payload) \<noteq> 0"
  shows "\<exists>out c. TorrentSet rpcCall h ctx payload = Some out \<and> invocations out = [c] \<and>
           elems (rpc_heap c) (TrackerList (rpc_payload c))
             = remdups_adj (sort (elems h (TrackerList payload))) \<and>
           (TrackerList (rpc_payload c) = nil) = (TrackerList payload = nil) \<and>
           payload\<lparr>TrackerList := TrackerList (rpc_payload c)\<rparr> = rpc_payload c \<and>
           (\<forall>a. a \<notin> cells (TrackerList payload) \<longrightarrow> rpc_heap c a = h a) \<and>
           heap_after out = rpc_heap c"
  by (simp add: TorrentSet_valid [OF assms] elems_after_TorrentSet reslice_nil_iff
        store_elems_outside)

lemma sorted_distinct_remdups_adj_sort:
  fixes xs :: "'a::linorder list"
  shows "sorted (remdups_adj (sort xs))" "distinct (remdups_adj (sort xs))"
    "set (remdups_adj (sort xs)) = set xs"
proof -
  show "sorted (remdups_adj (sort xs))" by simp
  show "set (remdups_adj (sort xs)) = set xs" by simp
  show "distinct (remdups_adj (sort xs))" by (simp add: distinct_remdups_adj_sorted)
qed

lemma normalize_set_eq:
  fixes xs :: "'a::linorder list"
  assumes "set xs = set zs"
  shows "remdups_adj (sort xs) = remdups_adj (sort zs)"
  by (rule sorted_distinct_set_unique)
     (simp_all add: sorted_distinct_remdups_adj_sort assms)

text \<open>
  The encoding depends on the payload through the attributes held by value, the strings
  that its labels, group and location read, and the elements of its tracker list.
\<close>

lemma cleanPayload_eqI:
  assumes "same_other_attributes h p h' q"
    and "(TrackerList p = nil) = (TrackerList q = nil)"
    and "elems h (TrackerList p) = elems h' (TrackerList q)"
  shows "cleanPayload h p = cleanPayload h' q"
proof -
  from assms(1) have v: "BandwidthPriority p = BandwidthPriority q"
    "DownloadLimit p = DownloadLimit q" "DownloadLimited p = DownloadLimited q"
    "FilesWanted p = FilesWanted q" "FilesUnwanted p = FilesUnwanted q"
    "HonorsSessionLimits p = HonorsSessionLimits q" "IDs p = IDs q"
    "PeerLimit p = PeerLimit q" "PriorityHigh p = PriorityHigh q"
    "PriorityLow p = PriorityLow q" "PriorityNormal p = PriorityNormal q"
    "QueuePosition p = QueuePosition q" "SeedIdleLimit p = SeedIdleLimit q"
    "SeedIdleMode p = SeedIdleMode q" "SeedRatioLimit p = SeedRatioLimit q"
    "SeedRatioMode p = SeedRatioMode q" "UploadLimit p = UploadLimit q"
    "UploadLimited p = UploadLimited q"
    by (cases p; cases q; simp add: same_other_attributes_def)+
  from assms(1) have s: "(Labels p = nil) = (Labels q = nil)"
    "elems h (Labels p) = elems h' (Labels q)"
    "map_option (\<lambda>p. JString (h p)) (Group p) = map_option (\<lambda>p. JString (h' p)) (Group q)"
    "map_option (\<lambda>p. JString (h p)) (Location p)
       = map_option (\<lambda>p. JString (h' p)) (Location q)"
    using option.map_comp [of JString h "Group p"] option.map_comp [of JString h' "Group q"]
      option.map_comp [of JString h "Location p"] option.map_comp [of JString h' "Location q"]
    by (simp_all add: same_other_attributes_def comp_def)
  show ?thesis
    by (simp add: cleanPayload_table v s assms(2,3) cong del: if_weak_cong)
qed

lemma same_other_attributes_sym:
  "same_other_attributes h p h' q \<Longrightarrow> same_other_attributes h' q h p"
  by (simp add: same_other_attributes_def)

lemma same_other_attributes_trans:
  "same_other_attributes h p h' q \<Longrightarrow> same_other_attributes h' q h'' r \<Longrightarrow>
   same_other_attributes h p h'' r"
  by (simp add: same_other_attributes_def)

text \<open>
  A heap that differs from \<open>h\<close> in the cells of the tracker list only shows the same
  other attributes, whatever the header of the tracker list, if the payload is separate.
\<close>

lemma same_other_attributes_kept:
  assumes "separate p" and "\<forall>a. a \<notin> cells (TrackerList p) \<longrightarrow> g a = h a"
  shows "same_other_attributes g (p\<lparr>TrackerList := t\<rparr>) h p"
  using assms elems_outside [OF assms(2), of "Labels p"]
    map_option_outside [OF assms(2), of "Group p"]
    map_option_outside [OF assms(2), of "Location p"]
  by (simp add: same_other_attributes_def separate_def)

text \<open>Reading the cells of a slice one by one.\<close>

lemma elems_Slice_Suc: "elems h (Slice p (Suc n)) = h p # elems h (Slice (Suc p) n)"
  by (simp add: upt_conv_Cons del: upt_Suc)

lemma elems_Slice_0: "elems h (Slice p 0) = []"
  by simp

text \<open>
  Claim C2. For every context and every payload whose \<open>IDs\<close> list is empty (nil or of
  length 0), \<open>TorrentSet\<close> returns the validation error, leaves the heap as it is and
  makes no call of the transport. For every payload whose \<open>IDs\<close> list is not empty it
  makes exactly one call of the transport, with the method name \<open>torrent-set\<close> and the
  context it was given, and what it returns is not the validation error.
\<close>

theorem TorrentSet_validates_IDs:
  "(len_opt (IDs payload) = 0 \<longrightarrow>
      TorrentSet rpcCall h ctx payload =
        Some \<lparr>err = Some (errors_New ''there must be at least one ID''),
              heap_after = h, invocations = []\<rparr>) \<and>
   (len_opt (IDs payload) \<noteq> 0 \<longrightarrow>
      (\<exists>out call. TorrentSet rpcCall h ctx payload = Some out \<and>
         invocations out = [call] \<and> rpc_method call = ''torrent-set'' \<and>
         rpc_ctx call = ctx \<and>
         err out \<noteq> Some (errors_New ''there must be at least one ID'')))"
proof (intro conjI impI)
  assume "len_opt (IDs payload) = 0"
  then show "TorrentSet rpcCall h ctx payload =
        Some \<lparr>err = Some (errors_New ''there must be at least one ID''),
              heap_after = h, invocations = []\<rparr>"
    by (simp add: TorrentSet_def)
next
  assume v: "len_opt (IDs payload) \<noteq> 0"
  show "\<exists>out call. TorrentSet rpcCall h ctx payload = Some out \<and>
         invocations out = [call] \<and> rpc_method call = ''torrent-set'' \<and>
         rpc_ctx call = ctx \<and>
         err out \<noteq> Some (errors_New ''there must be at least one ID'')"
    by (simp add: TorrentSet_valid [OF v] fmt_Errorf_w_def errors_New_def
          split: option.split)
qed

theorem TorrentSet_validates_IDs_witness:
  "len_opt (IDs (zero_payload\<lparr>IDs := Some []\<rparr>)) = 0 \<and>
   TorrentSet (\<lambda>call. None) (\<lambda>a. []) () (zero_payload\<lparr>IDs := Some []\<rparr>) =
     Some \<lparr>err = Some (errorString ''there must be at least one ID''),
           heap_after = (\<lambda>a. []), invocations = []\<rparr> \<and>
   len_opt (IDs zero_payload) = 0 \<and>
   TorrentSet (\<lambda>call. None) (\<lambda>a. []) () zero_payload =
     Some \<lparr>err = Some (errorString ''there must be at least one ID''),
           heap_after = (\<lambda>a. []), invocations = []\<rparr> \<and>
   len_opt (IDs (zero_payload\<lparr>IDs := Some [7]\<rparr>)) \<noteq> 0 \<and>
   (\<exists>out call. TorrentSet (\<lambda>call. None) (\<lambda>a. []) () (zero_payload\<lparr>IDs := Some [7]\<rparr>) = Some out \<and>
      invocations out = [call] \<and> rpc_method call = ''torrent-set'' \<and> rpc_ctx call = () \<and>
      err out \<noteq> Some (errorString ''there must be at least one ID''))"
  using TorrentSet_validates_IDs [of "zero_payload\<lparr>IDs := Some []\<rparr>" "\<lambda>call. None" "\<lambda>a. []" "()"]
    TorrentSet_validates_IDs [of "zero_payload" "\<lambda>call. None" "\<lambda>a. []" "()"]
    TorrentSet_validates_IDs [of "zero_payload\<lparr>IDs := Some [7]\<rparr>" "\<lambda>call. None" "\<lambda>a. []" "()"]
  by (simp add: errors_New_def zero_payload_def)

text \<open>
  Claim C5 says that any two payloads that differ only in the order and multiplicity of
  their tracker list entries are encoded identically. This fails when the labels share
  cells with the tracker list, since sorting the tracker list then sorts the labels: of
  two payloads with labels \<open>http://b, http://a\<close> and the same tracker entries, the one
  whose tracker list is the slice of its labels is sent with labels
  \<open>http://a, http://b\<close>, the one whose tracker list has cells of its own with labels
  \<open>http://b, http://a\<close>.
\<close>

theorem TorrentSet_shared_Labels_encode_differently:
  "\<exists>out out' c c'.
     TorrentSet (\<lambda>call. None) example_heap ()
       (zero_payload\<lparr>IDs := Some [7], Labels := Slice 0 2, TrackerList := Slice 0 2\<rparr>) = Some out \<and>
     invocations out = [c] \<and>
     TorrentSet (\<lambda>call. None) example_heap ()
       (zero_payload\<lparr>IDs := Some [7], Labels := Slice 0 2, TrackerList := Slice 2 2\<rparr>) = Some out' \<and>
     invocations out' = [c'] \<and>
     elems example_heap (Slice 0 2) = [''http://b'', ''http://a''] \<and>
     elems example_heap (Slice 2 2) = [''http://a'', ''http://b''] \<and>
     cleanPayload (rpc_heap c) (rpc_payload c) ''labels'' = Some (JStrings [''http://a'', ''http://b'']) \<and>
     cleanPayload (rpc_heap c') (rpc_payload c') ''labels'' = Some (JStrings [''http://b'', ''http://a'']) \<and>
     MarshalJSON (\<lambda>m. m) (rpc_heap c) (rpc_payload c)
       \<noteq> MarshalJSON (\<lambda>m. m) (rpc_heap c') (rpc_payload c')"
proof -
  define p where "p = zero_payload\<lparr>IDs := Some [7], Labels := Slice 0 2, TrackerList := Slice 0 2\<rparr>"
  define q where "q = zero_payload\<lparr>IDs := Some [7], Labels := Slice 0 2, TrackerList := Slice 2 2\<rparr>"
  define g :: heap where "g = example_heap"
  define c :: "unit rpc_invocation" where
    "c = \<lparr>rpc_ctx = (), rpc_method = ''torrent-set'', rpc_payload = p,
          rpc_heap = store_elems g (Slice 0 2) [''http://a'', ''http://b'']\<rparr>"
  define c' :: "unit rpc_invocation" where
    "c' = \<lparr>rpc_ctx = (), rpc_method = ''torrent-set'', rpc_payload = q,
           rpc_heap = store_elems g (Slice 2 2) [''http://a'', ''http://b'']\<rparr>"
  define out :: "unit outcome" where
    "out = \<lparr>err = None, heap_after = rpc_heap c, invocations = [c]\<rparr>"
  define out' :: "unit outcome" where
    "out' = \<lparr>err = None, heap_after = rpc_heap c', invocations = [c']\<rparr>"
  have v: "len_opt (IDs p) \<noteq> 0" "len_opt (IDs q) \<noteq> 0"
    by (simp_all add: p_def q_def)
  have x: "elems g (Slice 0 2) = [''http://b'', ''http://a'']" "elems g (Slice 2 2) = [''http://a'', ''http://b'']"
    by (simp_all add: g_def example_heap_def eval_nat_numeral elems_Slice_Suc
          elems_Slice_0 del: elems.simps)
  have r: "TorrentSet (\<lambda>call. None) g () p = Some out"
    using TorrentSet_valid [OF v(1), of "\<lambda>call. None" g "()"]
    by (simp add: p_def x out_def c_def del: elems.simps store_elems.simps)
  have r': "TorrentSet (\<lambda>call. None) g () q = Some out'"
    using TorrentSet_valid [OF v(2), of "\<lambda>call. None" g "()"]
    by (simp add: q_def x out'_def c'_def del: elems.simps store_elems.simps)
  have l: "cleanPayload (rpc_heap c) (rpc_payload c) ''labels'' = Some (JStrings [''http://a'', ''http://b''])"
    by (simp add: cleanPayload_at_key c_def p_def eval_nat_numeral elems_Slice_Suc
          elems_Slice_0 del: elems.simps)
  have l': "cleanPayload (rpc_heap c') (rpc_payload c') ''labels'' = Some (JStrings [''http://b'', ''http://a''])"
    by (simp add: cleanPayload_at_key c'_def q_def g_def example_heap_def
          eval_nat_numeral elems_Slice_Suc elems_Slice_0 del: elems.simps)
  have d: "MarshalJSON (\<lambda>m. m) (rpc_heap c) (rpc_payload c)
             \<noteq> MarshalJSON (\<lambda>m. m) (rpc_heap c') (rpc_payload c')"
  proof
    assume "MarshalJSON (\<lambda>m. m) (rpc_heap c) (rpc_payload c)
              = MarshalJSON (\<lambda>m. m) (rpc_heap c') (rpc_payload c')"
    then have "cleanPayload (rpc_heap c) (rpc_payload c) ''labels''
                 = cleanPayload (rpc_heap c') (rpc_payload c') ''labels''"
      by (simp add: MarshalJSON_def)
    then show False unfolding l l' by simp
  qed
  have i: "invocations out = [c]" "invocations out' = [c']"
    by (simp_all add: out_def out'_def)
  have "TorrentSet (\<lambda>call. None) g () p = Some out \<and>
     invocations out = [c] \<and>
     TorrentSet (\<lambda>call. None) g () q = Some out' \<and>
     invocations out' = [c'] \<and>
     elems g (Slice 0 2) = [''http://b'', ''http://a''] \<and>
     elems g (Slice 2 2) = [''http://a'', ''http://b''] \<and>
     cleanPayload (rpc_heap c) (rpc_payload c) ''labels'' = Some (JStrings [''http://a'', ''http://b'']) \<and>
     cleanPayload (rpc_heap c') (rpc_payload c') ''labels'' = Some (JStrings [''http://b'', ''http://a'']) \<and>
     MarshalJSON (\<lambda>m. m) (rpc_heap c) (rpc_payload c)
       \<noteq> MarshalJSON (\<lambda>m. m) (rpc_heap c') (rpc_payload c')"
    by (intro conjI) (rule r r' i x l l' d)+
  then show ?thesis
    unfolding p_def q_def g_def by (intro exI)
qed

text \<open>
  Claim C5 as amended. \<open>TorrentSet\<close> hands to the transport a tracker list that is
  normalized: the entries of the caller's list sorted ascending, each once. Hence two
  payloads with non-empty \<open>IDs\<close> that have the same other attributes, whose tracker
  lists are both nil or both non-nil with the same set of entries, and in which neither
  the labels nor the group nor the location share a cell with the tracker list, reach
  the transport with the same encoding, whatever \<open>json.Marshal\<close> is. In particular the
  tracker list \<open>http://b, http://a, http://a\<close> reaches the transport as
  \<open>http://a, http://b\<close> and is encoded under the key \<open>trackerList\<close> as the two entries
  joined by a line break.
\<close>

theorem TorrentSet_normalizes_TrackerList:
  assumes "len_opt (IDs p) \<noteq> 0"
    and "same_other_attributes h p h' q"
    and "(TrackerList p = nil) = (TrackerList q = nil)"
    and "set (elems h (TrackerList p)) = set (elems h' (TrackerList q))"
    and "separate p" and "separate q"
  shows "(\<exists>out out' c c'.
            TorrentSet rpcCall h ctx p = Some out \<and> invocations out = [c] \<and>
            TorrentSet rpcCall' h' ctx' q = Some out' \<and> invocations out' = [c'] \<and>
            elems (rpc_heap c) (TrackerList (rpc_payload c))
              = remdups_adj (sort (elems h (TrackerList p))) \<and>
            sorted (elems (rpc_heap c) (TrackerList (rpc_payload c))) \<and>
            distinct (elems (rpc_heap c) (TrackerList (rpc_payload c))) \<and>
            set (elems (rpc_heap c) (TrackerList (rpc_payload c)))
              = set (elems h (TrackerList p)) \<and>
            MarshalJSON json_Marshal (rpc_heap c) (rpc_payload c)
              = MarshalJSON json_Marshal (rpc_heap c') (rpc_payload c')) \<and>
         (\<exists>out c.
            TorrentSet rpcCall example_heap ctx
              (p\<lparr>TrackerList := Slice 0 3\<rparr>) = Some out \<and>
            invocations out = [c] \<and>
            elems (rpc_heap c) (TrackerList (rpc_payload c)) = [''http://a'', ''http://b''] \<and>
            cleanPayload (rpc_heap c) (rpc_payload c) ''trackerList''
              = Some (JString ''http://a\<newline>http://b''))"
proof -
  have "IDs q = IDs p"
    using assms(2) by (cases p; cases q; simp add: same_other_attributes_def)
  then have vq: "len_opt (IDs q) \<noteq> 0" using assms(1) by simp
  from TorrentSet_valid_call [OF assms(1), of rpcCall h ctx]
  obtain out c where o: "TorrentSet rpcCall h ctx p = Some out" "invocations out = [c]"
    and e: "elems (rpc_heap c) (TrackerList (rpc_payload c))
              = remdups_adj (sort (elems h (TrackerList p)))"
    and n: "(TrackerList (rpc_payload c) = nil) = (TrackerList p = nil)"
    and f: "p\<lparr>TrackerList := TrackerList (rpc_payload c)\<rparr> = rpc_payload c"
    and u: "\<forall>a. a \<notin> cells (TrackerList p) \<longrightarrow> rpc_heap c a = h a"
    by (elim exE conjE) (rule that)
  from TorrentSet_valid_call [OF vq, of rpcCall' h' ctx']
  obtain out' c' where o': "TorrentSet rpcCall' h' ctx' q = Some out'" "invocations out' = [c']"
    and e': "elems (rpc_heap c') (TrackerList (rpc_payload c'))
              = remdups_adj (sort (elems h' (TrackerList q)))"
    and n': "(TrackerList (rpc_payload c') = nil) = (TrackerList q = nil)"
    and f': "q\<lparr>TrackerList := TrackerList (rpc_payload c')\<rparr> = rpc_payload c'"
    and u': "\<forall>a. a \<notin> cells (TrackerList q) \<longrightarrow> rpc_heap c' a = h' a"
    by (elim exE conjE) (rule that)
  have same: "remdups_adj (sort (elems h (TrackerList p)))
                = remdups_adj (sort (elems h' (TrackerList q)))"
    by (rule normalize_set_eq) (rule assms(4))
  have k: "same_other_attributes (rpc_heap c) (rpc_payload c) h p"
    using same_other_attributes_kept [OF assms(5) u, of "TrackerList (rpc_payload c)"]
    unfolding f .
  have k': "same_other_attributes (rpc_heap c') (rpc_payload c') h' q"
    using same_other_attributes_kept [OF assms(6) u', of "TrackerList (rpc_payload c')"]
    unfolding f' .
  have "same_other_attributes (rpc_heap c) (rpc_payload c) h' q"
    using k assms(2) by (rule same_other_attributes_trans)
  then have "same_other_attributes (rpc_heap c) (rpc_payload c) (rpc_heap c') (rpc_payload c')"
    using same_other_attributes_sym [OF k'] by (rule same_other_attributes_trans)
  moreover have "(TrackerList (rpc_payload c) = nil) = (TrackerList (rpc_payload c') = nil)"
    unfolding n n' by (rule assms(3))
  moreover have "elems (rpc_heap c) (TrackerList (rpc_payload c))
                   = elems (rpc_heap c') (TrackerList (rpc_payload c'))"
    unfolding e e' by (rule same)
  ultimately have "cleanPayload (rpc_heap c) (rpc_payload c)
                     = cleanPayload (rpc_heap c') (rpc_payload c')"
    by (rule cleanPayload_eqI)
  then have m: "MarshalJSON json_Marshal (rpc_heap c) (rpc_payload c)
                  = MarshalJSON json_Marshal (rpc_heap c') (rpc_payload c')"
    by (simp add: MarshalJSON_def)
  have s: "sorted (elems (rpc_heap c) (TrackerList (rpc_payload c)))"
    "distinct (elems (rpc_heap c) (TrackerList (rpc_payload c)))"
    "set (elems (rpc_heap c) (TrackerList (rpc_payload c))) = set (elems h (TrackerList p))"
    unfolding e by (rule sorted_distinct_remdups_adj_sort)+
  have general: "\<exists>out out' c c'.
            TorrentSet rpcCall h ctx p = Some out \<and> invocations out = [c] \<and>
            TorrentSet rpcCall' h' ctx' q = Some out' \<and> invocations out' = [c'] \<and>
            elems (rpc_heap c) (TrackerList (rpc_payload c))
              = remdups_adj (sort (elems h (TrackerList p))) \<and>
            sorted (elems (rpc_heap c) (TrackerList (rpc_payload c))) \<and>
            distinct (elems (rpc_heap c) (TrackerList (rpc_payload c))) \<and>
            set (elems (rpc_heap c) (TrackerList (rpc_payload c)))
              = set (elems h (TrackerList p)) \<and>
            MarshalJSON json_Marshal (rpc_heap c) (rpc_payload c)
              = MarshalJSON json_Marshal (rpc_heap c') (rpc_payload c')"
    by (intro exI [of _ out] exI [of _ out'] exI [of _ c] exI [of _ c'] conjI)
       (rule o o' e s m)+
  define r where "r = p\<lparr>TrackerList := Slice 0 3\<rparr>"
  define g :: heap where "g = example_heap"
  have vr: "len_opt (IDs r) \<noteq> 0" using assms(1) by (simp add: r_def)
  from TorrentSet_valid_call [OF vr, of rpcCall g ctx]
  obtain out3 c3 where o3: "TorrentSet rpcCall g ctx r = Some out3" "invocations out3 = [c3]"
    and e3: "elems (rpc_heap c3) (TrackerList (rpc_payload c3))
              = remdups_adj (sort (elems g (TrackerList r)))"
    and n3: "(TrackerList (rpc_payload c3) = nil) = (TrackerList r = nil)"
    by (elim exE conjE) (rule that)
  have "elems g (TrackerList r) = [''http://b'', ''http://a'', ''http://a'']"
    by (simp add: r_def g_def example_heap_def eval_nat_numeral elems_Slice_Suc elems_Slice_0
          del: elems.simps)
  then have l3: "elems (rpc_heap c3) (TrackerList (rpc_payload c3)) = [''http://a'', ''http://b'']"
    unfolding e3 by simp
  have "TrackerList (rpc_payload c3) \<noteq> nil"
    using n3 by (simp add: r_def)
  then have k3: "cleanPayload (rpc_heap c3) (rpc_payload c3) ''trackerList''
              = Some (JString ''http://a\<newline>http://b'')"
    by (simp add: cleanPayload_at_key l3)
  have particular: "\<exists>out c.
            TorrentSet rpcCall g ctx r = Some out \<and>
            invocations out = [c] \<and>
            elems (rpc_heap c) (TrackerList (rpc_payload c)) = [''http://a'', ''http://b''] \<and>
            cleanPayload (rpc_heap c) (rpc_payload c) ''trackerList''
              = Some (JString ''http://a\<newline>http://b'')"
    by (intro exI [of _ out3] exI [of _ c3] conjI) (rule o3 l3 k3)+
  from general particular show ?thesis
    unfolding r_def g_def by (rule conjI)
qed

theorem TorrentSet_normalizes_TrackerList_witness:
  "len_opt (IDs (zero_payload\<lparr>IDs := Some [7], Labels := Slice 4 2, TrackerList := Slice 0 3\<rparr>)) \<noteq> 0 \<and>
   same_other_attributes example_heap
     (zero_payload\<lparr>IDs := Some [7], Labels := Slice 4 2, TrackerList := Slice 0 3\<rparr>)
     example_heap
     (zero_payload\<lparr>IDs := Some [7], Labels := Slice 4 2, TrackerList := Slice 2 2\<rparr>) \<and>
   set (elems example_heap (Slice 0 3)) = set (elems example_heap (Slice 2 2)) \<and>
   separate (zero_payload\<lparr>IDs := Some [7], Labels := Slice 4 2, TrackerList := Slice 0 3\<rparr>) \<and>
   separate (zero_payload\<lparr>IDs := Some [7], Labels := Slice 4 2, TrackerList := Slice 2 2\<rparr>) \<and>
   (\<exists>out out' c c'.
      TorrentSet (\<lambda>call. None) example_heap ()
        (zero_payload\<lparr>IDs := Some [7], Labels := Slice 4 2, TrackerList := Slice 0 3\<rparr>) = Some out \<and>
      invocations out = [c] \<and>
      TorrentSet (\<lambda>call. None) example_heap ()
        (zero_payload\<lparr>IDs := Some [7], Labels := Slice 4 2, TrackerList := Slice 2 2\<rparr>) = Some out' \<and>
      invocations out' = [c'] \<and>
      elems (rpc_heap c) (TrackerList (rpc_payload c)) = [''http://a'', ''http://b''] \<and>
      MarshalJSON (\<lambda>m. m) (rpc_heap c) (rpc_payload c)
        = MarshalJSON (\<lambda>m. m) (rpc_heap c') (rpc_payload c'))"
proof -
  define p where "p = zero_payload\<lparr>IDs := Some [7], Labels := Slice 4 2, TrackerList := Slice 0 3\<rparr>"
  define q where "q = zero_payload\<lparr>IDs := Some [7], Labels := Slice 4 2, TrackerList := Slice 2 2\<rparr>"
  define g :: heap where "g = example_heap"
  define g' :: heap where "g' = example_heap"
  have x: "elems g (Slice 0 3) = [''http://b'', ''http://a'', ''http://a'']" "elems g' (Slice 2 2) = [''http://a'', ''http://b'']"
    "elems g (Slice 4 2) = [''http://a'', ''http://a'']" "elems g' (Slice 4 2) = [''http://a'', ''http://a'']"
    by (simp_all add: g_def g'_def example_heap_def eval_nat_numeral elems_Slice_Suc
          elems_Slice_0 del: elems.simps)
  have v: "len_opt (IDs p) \<noteq> 0" by (simp add: p_def)
  have a: "same_other_attributes g p g' q"
    by (simp add: same_other_attributes_def p_def q_def x zero_payload_def del: elems.simps)
  have i: "(TrackerList p = nil) = (TrackerList q = nil)" by (simp add: p_def q_def)
  have s: "set (elems g (TrackerList p)) = set (elems g' (TrackerList q))"
    by (auto simp add: p_def q_def x simp del: elems.simps)
  have s': "set (elems g (Slice 0 3)) = set (elems g' (Slice 2 2))"
    using s by (simp add: p_def q_def del: elems.simps)
  have d: "separate p" "separate q"
    by (simp_all add: separate_def p_def q_def zero_payload_def)
  have n: "remdups_adj (sort (elems g (TrackerList p))) = [''http://a'', ''http://b'']"
    by (simp add: p_def x del: elems.simps)
  from TorrentSet_normalizes_TrackerList [OF v a i s d,
      of "\<lambda>call. None" "()" "\<lambda>call. None" "()" "\<lambda>m. m"]
  have "\<exists>out out' c c'.
      TorrentSet (\<lambda>call. None) g () p = Some out \<and>
      invocations out = [c] \<and>
      TorrentSet (\<lambda>call. None) g' () q = Some out' \<and>
      invocations out' = [c'] \<and>
      elems (rpc_heap c) (TrackerList (rpc_payload c)) = [''http://a'', ''http://b''] \<and>
      MarshalJSON (\<lambda>m. m) (rpc_heap c) (rpc_payload c)
        = MarshalJSON (\<lambda>m. m) (rpc_heap c') (rpc_payload c')"
    unfolding n
    by (elim conjE exE) (intro exI conjI; assumption)
  with v a s' d show ?thesis
    unfolding p_def q_def g_def g'_def by (intro conjI)
qed

text \<open>
  Claim C8. For every payload that passes validation, \<open>TorrentSet\<close> calls the transport
  once; if that call returns an error \<open>e\<close>, \<open>TorrentSet\<close> returns an error that wraps
  \<open>e\<close> itself (\<open>Unwrap\<close> gives \<open>e\<close> back) and whose message is the message of \<open>e\<close>
  behind a text that names the method \<open>torrent-set\<close>; if the transport returns no error,
  neither does \<open>TorrentSet\<close>.
\<close>

theorem TorrentSet_wraps_transport_error:
  assumes "len_opt (IDs payload) \<noteq> 0"
  shows "\<exists>out call. TorrentSet rpcCall h ctx payload = Some out \<and>
           invocations out = [call] \<and>
           (\<forall>e. rpcCall call = Some e \<longrightarrow>
              (\<exists>e'. err out = Some e' \<and> Unwrap e' = Some e \<and>
                 Error e' = [CHR 0x27] @ ''torrent-set'' @ [CHR 0x27] @ '' rpc method failed: '' @ Error e)) \<and>
           (rpcCall call = None \<longrightarrow> err out = None)"
  by (simp add: TorrentSet_valid [OF assms] fmt_Errorf_w_def)

theorem TorrentSet_wraps_transport_error_witness:
  "len_opt (IDs (zero_payload\<lparr>IDs := Some [7]\<rparr>)) \<noteq> 0 \<and>
   (\<exists>out. TorrentSet (\<lambda>call. Some (errorString ''timeout'')) (\<lambda>a. []) () (zero_payload\<lparr>IDs := Some [7]\<rparr>)
        = Some out \<and>
      err out = Some (wrapError (([CHR 0x27] @ ''torrent-set'' @ [CHR 0x27] @ '' rpc method failed: '') @ ''timeout'')
                        (errorString ''timeout''))) \<and>
   (\<exists>out. TorrentSet (\<lambda>call. None) (\<lambda>a. []) () (zero_payload\<lparr>IDs := Some [7]\<rparr>) = Some out \<and>
      err out = None)"
proof -
  have v: "len_opt (IDs (zero_payload\<lparr>IDs := Some [7]\<rparr>)) \<noteq> 0" by simp
  show ?thesis
    using v
      TorrentSet_wraps_transport_error [OF v,
        of "\<lambda>call. Some (errorString ''timeout'')" "\<lambda>a. []" "()"]
      TorrentSet_wraps_transport_error [OF v, of "\<lambda>call. None" "\<lambda>a. []" "()"]
    by (auto split: error.splits elim!: Unwrap.elims)
qed

text \<open>
  Claim C9 says that after the call the caller's tracker list holds the sorted contents
  and that all other payload fields seen by the caller are unchanged. The second part
  fails when another field shares cells with the tracker list: with \<open>Labels\<close> and
  \<open>TrackerList\<close> the same slice \<open>http://b, http://a\<close>, the caller's labels read
  \<open>http://a, http://b\<close> after the call.
\<close>

theorem TorrentSet_shared_Labels_are_sorted_too:
  "\<exists>out. TorrentSet (\<lambda>call. None) example_heap ()
            (zero_payload\<lparr>IDs := Some [7], Labels := Slice 0 2, TrackerList := Slice 0 2\<rparr>) = Some out \<and>
      elems example_heap
        (Labels (zero_payload\<lparr>IDs := Some [7], Labels := Slice 0 2, TrackerList := Slice 0 2\<rparr>))
        = [''http://b'', ''http://a''] \<and>
      elems (heap_after out)
        (Labels (zero_payload\<lparr>IDs := Some [7], Labels := Slice 0 2, TrackerList := Slice 0 2\<rparr>))
        = [''http://a'', ''http://b'']"
proof -
  define p where "p = zero_payload\<lparr>IDs := Some [7], Labels := Slice 0 2, TrackerList := Slice 0 2\<rparr>"
  define g :: heap where "g = example_heap"
  have v: "len_opt (IDs p) \<noteq> 0" by (simp add: p_def)
  have x: "elems g (TrackerList p) = [''http://b'', ''http://a'']"
    by (simp add: p_def g_def example_heap_def eval_nat_numeral elems_Slice_Suc
          elems_Slice_0 del: elems.simps)
  have "elems (store_elems g (TrackerList p) [''http://a'', ''http://b'']) (Labels p) = [''http://a'', ''http://b'']"
    by (simp add: p_def eval_nat_numeral elems_Slice_Suc elems_Slice_0 del: elems.simps)
  moreover have "elems g (Labels p) = [''http://b'', ''http://a'']"
    by (simp add: p_def g_def example_heap_def eval_nat_numeral elems_Slice_Suc
          elems_Slice_0 del: elems.simps)
  ultimately show ?thesis
    unfolding p_def [symmetric] g_def [symmetric]
    by (simp add: TorrentSet_valid [OF v] x)
qed

text \<open>
  Claim C9 as amended. The payload is passed by value, but the cells of its tracker list
  are shared with the caller. After a call with a non-empty \<open>IDs\<close> list, the slice that
  the caller still holds (same pointer, same length) reads the sorted entries with the
  repeats squeezed out of the front part: the sorted list without repeats, followed by
  the entries of the sorted list from that length on. The caller's struct is not written,
  and no cell on the heap other than those of the tracker list is changed. Hence, if
  neither the labels nor the group nor the location share a cell with the tracker list,
  they read after the call as before, as do all attributes that are not strings. The
  payload handed to the transport differs from the caller's in the length of the tracker
  list only.
\<close>

theorem TorrentSet_sorts_the_callers_TrackerList:
  assumes "len_opt (IDs payload) \<noteq> 0"
  shows "\<exists>out. TorrentSet rpcCall h ctx payload = Some out \<and>
           elems (heap_after out) (TrackerList payload) =
             remdups_adj (sort (elems h (TrackerList payload))) @
             drop (length (remdups_adj (sort (elems h (TrackerList payload)))))
               (sort (elems h (TrackerList payload))) \<and>
           (\<forall>a. a \<notin> cells (TrackerList payload) \<longrightarrow> heap_after out a = h a) \<and>
           (separate payload \<longrightarrow>
              elems (heap_after out) (Labels payload) = elems h (Labels payload) \<and>
              map_option (heap_after out) (Group payload) = map_option h (Group payload) \<and>
              map_option (heap_after out) (Location payload)
                = map_option h (Location payload)) \<and>
           map rpc_payload (invocations out) =
             [payload\<lparr>TrackerList := reslice (TrackerList payload)
                (length (remdups_adj (sort (elems h (TrackerList payload)))))\<rparr>]"
proof -
  define xs where "xs = elems h (TrackerList payload)"
  define ys where "ys = remdups_adj (sort xs)"
  define w where "w = ys @ drop (length ys) (sort xs)"
  define out where "out = the (TorrentSet rpcCall h ctx payload)"
  note run = TorrentSet_valid [OF assms(1), of rpcCall h ctx]
  have r: "TorrentSet rpcCall h ctx payload = Some out"
    by (simp add: out_def run)
  have ha: "heap_after out = store_elems h (TrackerList payload) w"
    by (simp add: out_def run w_def ys_def xs_def)
  have lw: "length w = length (elems h (TrackerList payload))"
    unfolding w_def ys_def xs_def by (rule length_normalized)
  have 1: "elems (heap_after out) (TrackerList payload) = w"
    unfolding ha using lw by (rule elems_store_elems)
  have 2: "\<forall>a. a \<notin> cells (TrackerList payload) \<longrightarrow> heap_after out a = h a"
    unfolding ha by (simp add: store_elems_outside)
  have 3: "separate payload \<longrightarrow>
              elems (heap_after out) (Labels payload) = elems h (Labels payload) \<and>
              map_option (heap_after out) (Group payload) = map_option h (Group payload) \<and>
              map_option (heap_after out) (Location payload)
                = map_option h (Location payload)"
    using elems_outside [OF 2, of "Labels payload"]
      map_option_outside [OF 2, of "Group payload"]
      map_option_outside [OF 2, of "Location payload"]
    by (simp add: separate_def)
  have 4: "map rpc_payload (invocations out)
             = [payload\<lparr>TrackerList := reslice (TrackerList payload) (length ys)\<rparr>]"
    by (simp add: out_def run ys_def xs_def)
  have "TorrentSet rpcCall h ctx payload = Some out \<and>
        elems (heap_after out) (TrackerList payload) = w \<and>
        (\<forall>a. a \<notin> cells (TrackerList payload) \<longrightarrow> heap_after out a = h a) \<and>
        (separate payload \<longrightarrow>
              elems (heap_after out) (Labels payload) = elems h (Labels payload) \<and>
              map_option (heap_after out) (Group payload) = map_option h (Group payload) \<and>
              map_option (heap_after out) (Location payload)
                = map_option h (Location payload)) \<and>
        map rpc_payload (invocations out)
          = [payload\<lparr>TrackerList := reslice (TrackerList payload) (length ys)\<rparr>]"
    by (intro conjI) (rule r 1 2 3 4)+
  then show ?thesis
    unfolding w_def ys_def xs_def by (rule exI)
qed

theorem TorrentSet_sorts_the_callers_TrackerList_witness:
  "len_opt (IDs (zero_payload\<lparr>Group := Some 3, IDs := Some [7], Labels := Slice 4 2, TrackerList := Slice 0 3\<rparr>)) \<noteq> 0 \<and>
   separate (zero_payload\<lparr>Group := Some 3, IDs := Some [7], Labels := Slice 4 2, TrackerList := Slice 0 3\<rparr>) \<and>
   (\<exists>out. TorrentSet (\<lambda>call. None) example_heap ()
           (zero_payload\<lparr>Group := Some 3, IDs := Some [7], Labels := Slice 4 2, TrackerList := Slice 0 3\<rparr>) = Some out \<and>
      elems (heap_after out) (Slice 0 3) = [''http://a'', ''http://b'', ''http://b''] \<and>
      elems (heap_after out) (Slice 4 2) = [''http://a'', ''http://a''] \<and>
      map_option (heap_after out) (Some 3) = Some ''http://b'' \<and>
      map rpc_payload (invocations out) =
        [zero_payload\<lparr>Group := Some 3, IDs := Some [7], Labels := Slice 4 2, TrackerList := Slice 0 2\<rparr>])"
proof -
  define p where "p = zero_payload\<lparr>Group := Some 3, IDs := Some [7], Labels := Slice 4 2, TrackerList := Slice 0 3\<rparr>"
  define g :: heap where "g = example_heap"
  have v: "len_opt (IDs p) \<noteq> 0" by (simp add: p_def)
  have s: "separate p" by (simp add: p_def separate_def zero_payload_def)
  have x: "elems g (TrackerList p) = [''http://b'', ''http://a'', ''http://a'']"
    by (simp add: p_def g_def example_heap_def eval_nat_numeral elems_Slice_Suc
          elems_Slice_0 del: elems.simps)
  have l: "elems g (Labels p) = [''http://a'', ''http://a'']"
    by (simp add: p_def g_def example_heap_def eval_nat_numeral elems_Slice_Suc
          elems_Slice_0 del: elems.simps)
  have m: "map_option g (Group p) = Some ''http://b''"
    by (simp add: p_def g_def example_heap_def)
  from TorrentSet_sorts_the_callers_TrackerList [OF v, of "\<lambda>call. None" g "()"]
  obtain out where o: "TorrentSet (\<lambda>call. None) g () p = Some out"
    and t: "elems (heap_after out) (TrackerList p) =
             remdups_adj (sort (elems g (TrackerList p))) @
             drop (length (remdups_adj (sort (elems g (TrackerList p)))))
               (sort (elems g (TrackerList p)))"
    and k: "separate p \<longrightarrow>
              elems (heap_after out) (Labels p) = elems g (Labels p) \<and>
              map_option (heap_after out) (Group p) = map_option g (Group p) \<and>
              map_option (heap_after out) (Location p) = map_option g (Location p)"
    and c: "map rpc_payload (invocations out) =
             [p\<lparr>TrackerList := reslice (TrackerList p)
                (length (remdups_adj (sort (elems g (TrackerList p)))))\<rparr>]"
    by (elim exE conjE) (rule that)
  from t have t': "elems (heap_after out) (Slice 0 3) = [''http://a'', ''http://b'', ''http://b'']"
    unfolding x by (simp add: p_def del: elems.simps)
  from k s have k': "elems (heap_after out) (Slice 4 2) = [''http://a'', ''http://a'']"
    "map_option (heap_after out) (Some 3) = Some ''http://b''"
    unfolding l m by (simp_all add: p_def del: elems.simps)
  from c have c': "map rpc_payload (invocations out) =
        [zero_payload\<lparr>Group := Some 3, IDs := Some [7], Labels := Slice 4 2, TrackerList := Slice 0 2\<rparr>]"
    unfolding x by (simp add: p_def)
  have "TorrentSet (\<lambda>call. None) g () p = Some out \<and>
      elems (heap_after out) (Slice 0 3) = [''http://a'', ''http://b'', ''http://b''] \<and>
      elems (heap_after out) (Slice 4 2) = [''http://a'', ''http://a''] \<and>
      map_option (heap_after out) (Some 3) = Some ''http://b'' \<and>
      map rpc_payload (invocations out) =
        [zero_payload\<lparr>Group := Some 3, IDs := Some [7], Labels := Slice 4 2, TrackerList := Slice 0 2\<rparr>]"
    by (intro conjI) (rule o t' k' c')+
  then have "\<exists>out. TorrentSet (\<lambda>call. None) g () p = Some out \<and>
      elems (heap_after out) (Slice 0 3) = [''http://a'', ''http://b'', ''http://b''] \<and>
      elems (heap_after out) (Slice 4 2) = [''http://a'', ''http://a''] \<and>
      map_option (heap_after out) (Some 3) = Some ''http://b'' \<and>
      map rpc_payload (invocations out) =
        [zero_payload\<lparr>Group := Some 3, IDs := Some [7], Labels := Slice 4 2, TrackerList := Slice 0 2\<rparr>]"
    by (rule exI)
  with v s show ?thesis
    unfolding p_def g_def by (intro conjI)
qed

end
